theory Spec2Isabelle
  imports Main
begin

section \<open>Python values of the command line front end\<close>

text \<open>
  The exceptions that \<^verbatim>\<open>instaloader/__main__.py\<close> raises, catches or lets through.
  \<^verbatim>\<open>InvalidArgumentException\<close> and \<^verbatim>\<open>ProfileNotExistsException\<close> are subclasses of
  \<^verbatim>\<open>InstaloaderException\<close>; the constructor \<open>InstaloaderException\<close> stands for every other
  member of that family (connection faults, login faults, rate limits). Each constructor
  carries the text of \<^verbatim>\<open>str(err)\<close>.
\<close>

datatype exn =
    InstaloaderException string
  | InvalidArgumentException string
  | ProfileNotExistsException string
  | KeyboardInterrupt
  | SystemExit string
  | IndexError string
  | SyntaxError string
  | FileNotFoundError string
  | ValueError string
  | OtherException string

fun is_InstaloaderException :: "exn \<Rightarrow> bool" where
  "is_InstaloaderException (InstaloaderException m) = True"
| "is_InstaloaderException (InvalidArgumentException m) = True"
| "is_InstaloaderException (ProfileNotExistsException m) = True"
| "is_InstaloaderException e = False"

fun message :: "exn \<Rightarrow> string" where
  "message (InstaloaderException m) = m"
| "message (InvalidArgumentException m) = m"
| "message (ProfileNotExistsException m) = m"
| "message KeyboardInterrupt = []"
| "message (SystemExit m) = m"
| "message (IndexError m) = m"
| "message (SyntaxError m) = m"
| "message (FileNotFoundError m) = m"
| "message (ValueError m) = m"
| "message (OtherException m) = m"

subsection \<open>Strings\<close>

text \<open>\<^verbatim>\<open>str.endswith\<close>, \<^verbatim>\<open>str.rstrip('/')\<close>, \<^verbatim>\<open>sep.join\<close> and \<^verbatim>\<open>str(n)\<close> for a length.\<close>

definition endswith :: "string \<Rightarrow> string \<Rightarrow> bool" where
  "endswith s suffix = (length suffix \<le> length s \<and> drop (length s - length suffix) s = suffix)"

definition rstrip :: "string \<Rightarrow> string" where
  "rstrip s = rev (dropWhile (\<lambda>c. c = CHR ''/'') (rev s))"

fun join :: "string \<Rightarrow> string list \<Rightarrow> string" where
  "join sep [] = []"
| "join sep [x] = x"
| "join sep (x # y # ys) = x @ sep @ join sep (y # ys)"

definition digit :: "nat \<Rightarrow> char" where
  "digit d = ''0123456789'' ! d"

function str_of_nat :: "nat \<Rightarrow> string" where
  "str_of_nat n = (if n < 10 then [digit n] else str_of_nat (n div 10) @ [digit (n mod 10)])"
  by pat_completeness auto
termination
  by (relation "measure id") auto

text \<open>
  \<^verbatim>\<open>os.path.dirname\<close> of \<^verbatim>\<open>posixpath\<close>: the text up to and including the last separator,
  with trailing separators removed unless it consists of separators only.
\<close>

definition dirname :: "string \<Rightarrow> string" where
  "dirname p =
     (let head = rev (dropWhile (\<lambda>c. c \<noteq> CHR ''/'') (rev p))
      in if head \<noteq> [] \<and> \<not> list_all (\<lambda>c. c = CHR ''/'') head then rstrip head else head)"

section \<open>The filter compiler: \<^verbatim>\<open>filterstr_to_filterfunc\<close>\<close>

text \<open>
  The syntax trees of \<^verbatim>\<open>ast.parse(..., mode='eval')\<close>, as far as \<^verbatim>\<open>NodeTransformer\<close> sees
  them. \<open>Name\<close> and \<open>Attribute\<close> are the node classes the transformer reads and builds;
  \<open>Constant\<close> is a literal; \<open>Node cls children\<close> is a node of any other class with its
  child nodes in the order of \<^verbatim>\<open>_fields\<close> (list fields flattened), which is the order
  in which \<^verbatim>\<open>generic_visit\<close> visits them.
\<close>

datatype expr_context = Load | Store | Del

datatype ast =
    Name string expr_context
  | Attribute ast string expr_context
  | Constant string
  | Node string "ast list"

text \<open>
  The item type (\<^verbatim>\<open>Post\<close> or \<^verbatim>\<open>StoryItem\<close>): its \<^verbatim>\<open>__name__\<close> and the names for which
  \<^verbatim>\<open>hasattr(item_type, name)\<close> holds.
\<close>

record item_type =
  type_name :: string
  attributes :: "string list"

definition hasattr :: "item_type \<Rightarrow> string \<Rightarrow> bool" where
  "hasattr ty name = (name \<in> set (attributes ty))"

definition modifying_msg :: "string \<Rightarrow> string" where
  "modifying_msg ident = ''Invalid filter: Modifying variables ('' @ ident @ '') not allowed.''"

definition not_attribute_msg :: "item_type \<Rightarrow> string \<Rightarrow> string" where
  "not_attribute_msg ty ident = ''Invalid filter: '' @ ident @ '' not a '' @ type_name ty @ '' attribute.''"

text \<open>
  \<^verbatim>\<open>TransformFilterAst().visit\<close>: \<^verbatim>\<open>visit_Name\<close> on a \<open>Name\<close>, \<^verbatim>\<open>generic_visit\<close> on every
  other node. The first exception raised ends the traversal.
\<close>

fun visit :: "item_type \<Rightarrow> ast \<Rightarrow> exn + ast"
  and visit_children :: "item_type \<Rightarrow> ast list \<Rightarrow> exn + ast list" where
  "visit ty (Name ident ctx) =
     (if ctx \<noteq> Load then Inl (InvalidArgumentException (modifying_msg ident))
      else if ident = ''datetime'' then Inr (Name ident ctx)
      else if \<not> hasattr ty ident then Inl (InvalidArgumentException (not_attribute_msg ty ident))
      else Inr (Attribute (Name ''item'' Load) ident Load))"
| "visit ty (Attribute v attr ctx) =
     (case visit ty v of Inl e \<Rightarrow> Inl e | Inr v' \<Rightarrow> Inr (Attribute v' attr ctx))"
| "visit ty (Constant c) = Inr (Constant c)"
| "visit ty (Node cls children) =
     (case visit_children ty children of Inl e \<Rightarrow> Inl e | Inr children' \<Rightarrow> Inr (Node cls children'))"
| "visit_children ty [] = Inr []"
| "visit_children ty (c # cs) =
     (case visit ty c of
        Inl e \<Rightarrow> Inl e
      | Inr c' \<Rightarrow> (case visit_children ty cs of Inl e \<Rightarrow> Inl e | Inr cs' \<Rightarrow> Inr (c' # cs')))"

text \<open>
  \<^verbatim>\<open>filterstr_to_filterfunc\<close>. The parser \<^verbatim>\<open>ast.parse\<close> and the byte compiler \<^verbatim>\<open>compile\<close>
  are Python built-ins and are parameters; either may raise. The compiled filter is
  represented by the transformed tree that was handed to \<^verbatim>\<open>compile\<close>.
\<close>

definition filterstr_to_filterfunc ::
  "(string \<Rightarrow> exn + ast) \<Rightarrow> (ast \<Rightarrow> exn option) \<Rightarrow> string \<Rightarrow> item_type \<Rightarrow> exn + ast" where
  "filterstr_to_filterfunc ast_parse py_compile filter_str ty =
     (case ast_parse filter_str of
        Inl e \<Rightarrow> Inl e
      | Inr tree \<Rightarrow>
          (case visit ty tree of
             Inl e \<Rightarrow> Inl e
           | Inr tree' \<Rightarrow> (case py_compile tree' of Some e \<Rightarrow> Inl e | None \<Rightarrow> Inr tree')))"

text \<open>Specification side: the bare names of a tree in visiting order, and the rewriting.\<close>

fun names :: "ast \<Rightarrow> (string \<times> expr_context) list"
  and names_children :: "ast list \<Rightarrow> (string \<times> expr_context) list" where
  "names (Name ident ctx) = [(ident, ctx)]"
| "names (Attribute v attr ctx) = names v"
| "names (Constant c) = []"
| "names (Node cls children) = names_children children"
| "names_children [] = []"
| "names_children (c # cs) = names c @ names_children cs"

fun rewrite :: "ast \<Rightarrow> ast" where
  "rewrite (Name ident ctx) =
     (if ident = ''datetime'' then Name ident ctx else Attribute (Name ''item'' Load) ident Load)"
| "rewrite (Attribute v attr ctx) = Attribute (rewrite v) attr ctx"
| "rewrite (Constant c) = Constant c"
| "rewrite (Node cls children) = Node cls (map rewrite children)"

text \<open>
  A bare name is undeclared when it is neither the whitelisted \<^verbatim>\<open>datetime\<close> nor an attribute of
  the item type; an occurrence of a name offends when it is not a load or loads an undeclared
  name.
\<close>

definition undeclared :: "item_type \<Rightarrow> string \<Rightarrow> bool" where
  "undeclared ty ident = (ident \<noteq> ''datetime'' \<and> \<not> hasattr ty ident)"

definition offending :: "item_type \<Rightarrow> string \<times> expr_context \<Rightarrow> bool" where
  "offending ty n = (snd n \<noteq> Load \<or> undeclared ty (fst n))"

definition name_fault :: "item_type \<Rightarrow> string \<times> expr_context \<Rightarrow> exn" where
  "name_fault ty n =
     (if snd n \<noteq> Load then InvalidArgumentException (modifying_msg (fst n))
      else InvalidArgumentException (not_attribute_msg ty (fst n)))"

section \<open>The orchestrator: \<^verbatim>\<open>_main\<close>\<close>

subsection \<open>Data\<close>

text \<open>
  What \<^verbatim>\<open>load_structure_from_file\<close> returns (a \<^verbatim>\<open>JsonExportable\<close>), by the \<^verbatim>\<open>isinstance\<close> tests of the loop: a
  \<open>Post\<close> or \<open>StoryItem\<close> with its \<^verbatim>\<open>str()\<close>, a \<open>Profile\<close> with its \<^verbatim>\<open>username\<close>, or an object
  of another class with its \<^verbatim>\<open>__class__.__name__\<close>.
\<close>

datatype jsonexportable = Post string | StoryItem string | Profile string | OtherStructure string

fun str_of :: "jsonexportable \<Rightarrow> string" where
  "str_of (Post s) = s"
| "str_of (StoryItem s) = s"
| "str_of (Profile s) = s"
| "str_of (OtherStructure s) = s"

text \<open>
  The branches of the target loop (lines 96 to 138), one constructor for each: the local file
  branch and the six branches of the \<^verbatim>\<open>if\<close>/\<^verbatim>\<open>elif\<close> chain.
\<close>

datatype target =
    LocalDescriptorFile string
  | AccountFollowees string
  | Tag string
  | SpecialFeed
  | SpecialStories
  | SpecialSaved
  | AccountName string

text \<open>
  An argument of a call is either passed or left to the default of the callee. The two
  calls of \<^verbatim>\<open>download_profile\<close> differ in which arguments they pass.
\<close>

datatype 'a arg = Omitted | Passed 'a

record profile_call =
  pc_profile_name :: string
  pc_profile_pic :: bool
  pc_profile_pic_only :: bool
  pc_fast_update :: bool
  pc_download_stories :: "bool arg"
  pc_download_stories_only :: "bool arg"
  pc_post_filter :: "ast option arg"
  pc_storyitem_filter :: "ast option arg"

text \<open>The receiver of a call: \<^verbatim>\<open>instaloader\<close> itself or the \<^verbatim>\<open>anonymous_loader\<close> copy.\<close>

datatype loader = TheLoader | AnonymousLoader

text \<open>
  Everything the run does to the outside, in order: log lines, lines on standard error,
  the errors recorded by \<^verbatim>\<open>error_catcher\<close> and the calls of the \<^verbatim>\<open>Instaloader\<close> methods with
  the arguments passed.
\<close>

datatype event =
    Log string
  | Stderr string
  | ErrorRecord "string option" exn
  | LoadSessionFromFile string "string option"
  | TestLogin
  | Login string string
  | InteractiveLogin string
  | LoadStructureFromFile string
  | DownloadPost jsonexportable string
  | DownloadStoryitem jsonexportable string
  | GetFollowees string
  | DownloadHashtag string "int option" bool "ast option"
  | DownloadFeedPosts bool "int option" "ast option"
  | DownloadStories bool "ast option"
  | DownloadSavedPosts bool "int option" "ast option"
  | AnonymousCopy
  | DownloadProfile loader profile_call
  | SaveSessionToFile "string option"
  | CloseLoader

text \<open>
  The state of a run: \<^verbatim>\<open>instaloader.context.is_logged_in\<close>, the local variable
  \<^verbatim>\<open>profiles\<close> (a Python set: a list without repetition, in insertion order; Python fixes no
  iteration order and nothing below depends on it) and the events so far.
\<close>

record state =
  is_logged_in :: bool
  profiles :: "string list"
  trace :: "event list"

text \<open>
  The outside world: the built-ins (\<open>str_lower\<close> is \<^verbatim>\<open>str.lower\<close>) and the methods of
  \<^verbatim>\<open>Instaloader\<close> that \<^verbatim>\<open>main\<close> and \<^verbatim>\<open>_main\<close> call,
  each giving what the call returns or the exception it raises (\<open>Some e\<close>, \<open>Inl e\<close>).
  \<open>get_followees\<close> stands for \<^verbatim>\<open>Profile.from_username(...).get_followees()\<close> and returns the
  \<^verbatim>\<open>username\<close> of every followee; \<open>download_profile\<close> is asked per receiver and profile name.
  Within one run a call with the same arguments has the same outcome.
\<close>

record env =
  argv0 :: string
  ast_parse :: "string \<Rightarrow> exn + ast"
  py_compile :: "ast \<Rightarrow> exn option"
  py_eval :: "ast \<Rightarrow> jsonexportable \<Rightarrow> exn + bool"
  py_int :: "string \<Rightarrow> exn + int"
  str_lower :: "string \<Rightarrow> string"
  Post_type :: item_type
  StoryItem_type :: item_type
  isfile :: "string \<Rightarrow> bool"
  load_session_from_file :: "string \<Rightarrow> string option \<Rightarrow> exn option"
  test_login :: "exn + string option"
  login :: "string \<Rightarrow> string \<Rightarrow> exn option"
  interactive_login :: "string \<Rightarrow> exn option"
  load_structure_from_file :: "string \<Rightarrow> exn + jsonexportable"
  download_post :: "jsonexportable \<Rightarrow> string \<Rightarrow> exn option"
  download_storyitem :: "jsonexportable \<Rightarrow> string \<Rightarrow> exn option"
  get_followees :: "string \<Rightarrow> exn + string list"
  download_hashtag :: "string \<Rightarrow> exn option"
  download_feed_posts :: "exn option"
  download_stories :: "exn option"
  download_saved_posts :: "exn option"
  download_profile :: "loader \<Rightarrow> string \<Rightarrow> exn option"
  save_session_to_file :: "string option \<Rightarrow> exn option"

text \<open>The parameters of \<^verbatim>\<open>_main\<close> after the loader.\<close>

record params =
  targetlist :: "string list"
  username :: "string option"
  password :: "string option"
  sessionfile :: "string option"
  max_count :: "int option"
  profile_pic :: bool
  profile_pic_only :: bool
  fast_update :: bool
  stories :: bool
  stories_only :: bool
  post_filter_str :: "string option"
  storyitem_filter_str :: "string option"

subsection \<open>Effects\<close>

type_synonym action = "state \<Rightarrow> exn option \<times> state"

definition emit :: "event \<Rightarrow> state \<Rightarrow> state" where
  "emit ev s = s\<lparr>trace := trace s @ [ev]\<rparr>"

text \<open>A call of an external method: the call is recorded, then it returns or raises.\<close>

definition call :: "event \<Rightarrow> exn option \<Rightarrow> action" where
  "call ev outcome s = (outcome, emit ev s)"

text \<open>
  Modelled from the spec: \<^verbatim>\<open>InstaloaderContext.error_catcher\<close>, the scoped failure boundary,
  is defined outside \<^verbatim>\<open>__main__.py\<close>. A fault of the \<^verbatim>\<open>InstaloaderException\<close> family raised
  by the body is caught and recorded as an error record (the target given as
  \<^verbatim>\<open>extra_info\<close>, and the cause), and execution goes on after the \<^verbatim>\<open>with\<close> block. An
  interrupt and every exception outside the family pass through.
\<close>

definition error_catcher :: "string option \<Rightarrow> action \<Rightarrow> action" where
  "error_catcher extra_info body s =
     (case body s of
        (None, s') \<Rightarrow> (None, s')
      | (Some err, s') \<Rightarrow>
          if is_InstaloaderException err then (None, emit (ErrorRecord extra_info err) s')
          else (Some err, s'))"

text \<open>\<^verbatim>\<open>profiles.add\<close> and \<^verbatim>\<open>profiles.update\<close>.\<close>

definition set_add :: "string \<Rightarrow> string list \<Rightarrow> string list" where
  "set_add x xs = (if x \<in> set xs then xs else xs @ [x])"

definition set_update :: "string list \<Rightarrow> string list \<Rightarrow> string list" where
  "set_update new xs = foldl (\<lambda>acc x. set_add x acc) xs new"

subsection \<open>The target loop\<close>

text \<open>
  The conditions of lines 96 and 121 to 138. \<^verbatim>\<open>target[0]\<close> raises \<^verbatim>\<open>IndexError\<close> on the
  empty string.
\<close>

definition is_descriptor_file :: "(string \<Rightarrow> bool) \<Rightarrow> string \<Rightarrow> bool" where
  "is_descriptor_file isfile_fn target =
     ((endswith target ''.json'' \<or> endswith target ''.json.xz'') \<and> isfile_fn target)"

definition classify_sigil :: "string \<Rightarrow> exn + target" where
  "classify_sigil target =
     (case target of
        [] \<Rightarrow> Inl (IndexError ''string index out of range'')
      | c # rest \<Rightarrow>
          if c = CHR ''@'' then Inr (AccountFollowees rest)
          else if c = CHR ''#'' then Inr (Tag rest)
          else if target = '':feed'' then Inr SpecialFeed
          else if target = '':stories'' then Inr SpecialStories
          else if target = '':saved'' then Inr SpecialSaved
          else Inr (AccountName target))"

definition classify :: "(string \<Rightarrow> bool) \<Rightarrow> string \<Rightarrow> exn + target" where
  "classify isfile_fn target =
     (if is_descriptor_file isfile_fn target then Inr (LocalDescriptorFile target)
      else classify_sigil (rstrip target))"

text \<open>\<^verbatim>\<open>flt is not None and not flt(structure)\<close>; evaluating the filter may raise.\<close>

definition rejects :: "env \<Rightarrow> ast option \<Rightarrow> jsonexportable \<Rightarrow> exn + bool" where
  "rejects env flt structure =
     (case flt of
        None \<Rightarrow> Inr False
      | Some f \<Rightarrow> (case py_eval env f structure of Inl e \<Rightarrow> Inl e | Inr b \<Rightarrow> Inr (\<not> b)))"

definition skipped_msg :: "jsonexportable \<Rightarrow> string \<Rightarrow> string" where
  "skipped_msg structure target = ''<'' @ str_of structure @ '' ('' @ target @ '') skipped>''"

definition profile_json_msg :: "string \<Rightarrow> string" where
  "profile_json_msg uname =
     ''Profile JSON are ignored. Pass '' @ [CHR 0x22] @ uname @ [CHR 0x22] @ '' to download that profile''"

definition not_supported_msg :: "string \<Rightarrow> string" where
  "not_supported_msg cls = cls @ '' JSON file not supported as target''"

text \<open>Lines 98 to 116: the body of the \<^verbatim>\<open>with\<close> block of a local file.\<close>

definition local_file_body :: "env \<Rightarrow> ast option \<Rightarrow> ast option \<Rightarrow> string \<Rightarrow> action" where
  "local_file_body env post_filter storyitem_filter target s =
     (let s1 = emit (LoadStructureFromFile target) s in
      case load_structure_from_file env target of
        Inl e \<Rightarrow> (Some e, s1)
      | Inr structure \<Rightarrow>
          (case structure of
             Post x \<Rightarrow>
               (case rejects env post_filter structure of
                  Inl e \<Rightarrow> (Some e, s1)
                | Inr True \<Rightarrow> (None, emit (Log (skipped_msg structure target)) s1)
                | Inr False \<Rightarrow>
                    call (DownloadPost structure (dirname target))
                      (download_post env structure (dirname target))
                      (emit (Log (''Downloading '' @ str_of structure @ '' ('' @ target @ '')'')) s1))
           | StoryItem x \<Rightarrow>
               (case rejects env storyitem_filter structure of
                  Inl e \<Rightarrow> (Some e, s1)
                | Inr True \<Rightarrow> (None, emit (Log (skipped_msg structure target)) s1)
                | Inr False \<Rightarrow>
                    call (DownloadStoryitem structure (dirname target))
                      (download_storyitem env structure (dirname target))
                      (emit (Log (''Attempting to download '' @ str_of structure @ '' ('' @ target @ '')'')) s1))
           | Profile uname \<Rightarrow> (Some (InvalidArgumentException (profile_json_msg uname)), s1)
           | OtherStructure cls \<Rightarrow> (Some (InvalidArgumentException (not_supported_msg cls)), s1)))"

text \<open>Lines 122 to 138: the bodies of the branches of the chain.\<close>

fun branch_body :: "env \<Rightarrow> params \<Rightarrow> ast option \<Rightarrow> ast option \<Rightarrow> target \<Rightarrow> action" where
  "branch_body env p post_filter storyitem_filter (AccountFollowees name) s =
     (let s1 = emit (GetFollowees name) (emit (Log (''Retrieving followees of '' @ name @ ''...'')) s) in
      case get_followees env name of
        Inl e \<Rightarrow> (Some e, s1)
      | Inr followees \<Rightarrow> (None, s1\<lparr>profiles := set_update followees (profiles s1)\<rparr>))"
| "branch_body env p post_filter storyitem_filter (Tag name) s =
     call (DownloadHashtag name (max_count p) (fast_update p) post_filter) (download_hashtag env name) s"
| "branch_body env p post_filter storyitem_filter SpecialFeed s =
     call (DownloadFeedPosts (fast_update p) (max_count p) post_filter) (download_feed_posts env) s"
| "branch_body env p post_filter storyitem_filter SpecialStories s =
     call (DownloadStories (fast_update p) storyitem_filter) (download_stories env) s"
| "branch_body env p post_filter storyitem_filter SpecialSaved s =
     call (DownloadSavedPosts (fast_update p) (max_count p) post_filter) (download_saved_posts env) s"
| "branch_body env p post_filter storyitem_filter (AccountName name) s =
     (None, s\<lparr>profiles := set_add name (profiles s)\<rparr>)"
| "branch_body env p post_filter storyitem_filter (LocalDescriptorFile path) s =
     local_file_body env post_filter storyitem_filter path s"

text \<open>
  The body of one \<^verbatim>\<open>with\<close> block of the target loop, before the boundary: the branch is
  chosen, then run.
\<close>

definition target_body :: "env \<Rightarrow> params \<Rightarrow> ast option \<Rightarrow> ast option \<Rightarrow> string \<Rightarrow> action" where
  "target_body env p post_filter storyitem_filter raw s =
     (case classify (isfile env) raw of
        Inl e \<Rightarrow> (Some e, s)
      | Inr t \<Rightarrow> branch_body env p post_filter storyitem_filter t s)"

text \<open>
  One iteration of the target loop: the file test is made on the raw string; otherwise the
  trailing separators are stripped and the stripped string is the \<^verbatim>\<open>extra_info\<close> of the
  boundary.
\<close>

definition label :: "env \<Rightarrow> string \<Rightarrow> string" where
  "label env raw = (if is_descriptor_file (isfile env) raw then raw else rstrip raw)"

definition process_target :: "env \<Rightarrow> params \<Rightarrow> ast option \<Rightarrow> ast option \<Rightarrow> string \<Rightarrow> action" where
  "process_target env p post_filter storyitem_filter raw s =
     error_catcher (Some (label env raw)) (target_body env p post_filter storyitem_filter raw) s"

text \<open>
  A \<^verbatim>\<open>for\<close> loop whose body may raise: the first exception that leaves the body ends the
  loop and leaves it too.
\<close>

fun for_each :: "('a \<Rightarrow> action) \<Rightarrow> 'a list \<Rightarrow> action" where
  "for_each body [] s = (None, s)"
| "for_each body (x # xs) s =
     (case body x s of
        (None, s') \<Rightarrow> for_each body xs s'
      | (Some e, s') \<Rightarrow> (Some e, s'))"

text \<open>Lines 95 to 138.\<close>

definition targets_loop :: "env \<Rightarrow> params \<Rightarrow> ast option \<Rightarrow> ast option \<Rightarrow> string list \<Rightarrow> action" where
  "targets_loop env p post_filter storyitem_filter targets =
     for_each (process_target env p post_filter storyitem_filter) targets"

subsection \<open>The profile loop\<close>

text \<open>
  The arguments of the two calls of \<^verbatim>\<open>download_profile\<close>: line 145 passes all of them, line
  154 passes neither \<^verbatim>\<open>download_stories\<close>, \<^verbatim>\<open>download_stories_only\<close> nor
  \<^verbatim>\<open>storyitem_filter\<close>.
\<close>

definition first_call :: "params \<Rightarrow> ast option \<Rightarrow> ast option \<Rightarrow> string \<Rightarrow> profile_call" where
  "first_call p post_filter storyitem_filter target =
     \<lparr>pc_profile_name = target, pc_profile_pic = profile_pic p,
      pc_profile_pic_only = profile_pic_only p, pc_fast_update = fast_update p,
      pc_download_stories = Passed (stories p), pc_download_stories_only = Passed (stories_only p),
      pc_post_filter = Passed post_filter, pc_storyitem_filter = Passed storyitem_filter\<rparr>"

definition retry_call :: "params \<Rightarrow> ast option \<Rightarrow> string \<Rightarrow> profile_call" where
  "retry_call p post_filter target =
     \<lparr>pc_profile_name = target, pc_profile_pic = profile_pic p,
      pc_profile_pic_only = profile_pic_only p, pc_fast_update = fast_update p,
      pc_download_stories = Omitted, pc_download_stories_only = Omitted,
      pc_post_filter = Passed post_filter, pc_storyitem_filter = Omitted\<rparr>"

definition trying_again_msg :: string where
  "trying_again_msg = ''Trying again anonymously, helps in case you are just blocked.''"

text \<open>
  Lines 152 to 155: the anonymous copy and the retry inside a boundary of its own. The making
  of the copy is recorded; leaving its \<^verbatim>\<open>with\<close> block is not.
\<close>

definition anonymous_retry :: "env \<Rightarrow> params \<Rightarrow> ast option \<Rightarrow> string \<Rightarrow> action" where
  "anonymous_retry env p post_filter target s =
     error_catcher None
       (call (DownloadProfile AnonymousLoader (retry_call p post_filter target))
          (download_profile env AnonymousLoader target))
       (emit AnonymousCopy s)"

text \<open>Lines 144 to 157: the \<^verbatim>\<open>try\<close> statement inside the boundary of one profile.\<close>

definition profile_body :: "env \<Rightarrow> params \<Rightarrow> ast option \<Rightarrow> ast option \<Rightarrow> string \<Rightarrow> action" where
  "profile_body env p post_filter storyitem_filter target s =
     (case call (DownloadProfile TheLoader (first_call p post_filter storyitem_filter target))
             (download_profile env TheLoader target) s of
        (Some (ProfileNotExistsException m), s1) \<Rightarrow>
          if is_logged_in s1 then
            anonymous_retry env p post_filter target
              (emit (Log trying_again_msg) (emit (Log m) s1))
          else (Some (ProfileNotExistsException m), s1)
      | r \<Rightarrow> r)"

definition process_profile :: "env \<Rightarrow> params \<Rightarrow> ast option \<Rightarrow> ast option \<Rightarrow> string \<Rightarrow> action" where
  "process_profile env p post_filter storyitem_filter target s =
     error_catcher (Some target) (profile_body env p post_filter storyitem_filter target) s"

text \<open>Lines 142 to 157.\<close>

definition profiles_loop :: "env \<Rightarrow> params \<Rightarrow> ast option \<Rightarrow> ast option \<Rightarrow> string list \<Rightarrow> action" where
  "profiles_loop env p post_filter storyitem_filter accounts =
     for_each (process_profile env p post_filter storyitem_filter) accounts"

definition downloading_msg :: "string list \<Rightarrow> string" where
  "downloading_msg ps = ''Downloading '' @ str_of_nat (length ps) @ '' profiles: '' @ join '' '' ps"

text \<open>Lines 94 to 157: the body of the outer \<^verbatim>\<open>try\<close>.\<close>

definition loops :: "env \<Rightarrow> params \<Rightarrow> ast option \<Rightarrow> ast option \<Rightarrow> action" where
  "loops env p post_filter storyitem_filter s =
     (case targets_loop env p post_filter storyitem_filter (targetlist p) s of
        (Some e, s1) \<Rightarrow> (Some e, s1)
      | (None, s1) \<Rightarrow>
          profiles_loop env p post_filter storyitem_filter (profiles s1)
            (if length (profiles s1) > 1 then emit (Log (downloading_msg (profiles s1))) s1 else s1))"

subsection \<open>Filters and login\<close>

text \<open>Lines 69 to 76, for one of the two filters.\<close>

definition make_filter :: "env \<Rightarrow> string option \<Rightarrow> item_type \<Rightarrow> string \<Rightarrow> state \<Rightarrow> (exn + ast option) \<times> state" where
  "make_filter env filter_str ty what s =
     (case filter_str of
        None \<Rightarrow> (Inr None, s)
      | Some str \<Rightarrow>
          (case filterstr_to_filterfunc (ast_parse env) (py_compile env) str ty of
             Inl e \<Rightarrow> (Inl e, s)
           | Inr f \<Rightarrow>
               (Inr (Some f),
                emit (Log (''Only download '' @ what @ '' with property '' @ [CHR 0x22] @ str
                             @ [CHR 0x22] @ ''.'')) s)))"

text \<open>
  Lines 79 to 84. Modelled from the spec: a session that loads from storage populates the
  session, which is then logged in; so does a login that returns.
\<close>

definition load_session :: "env \<Rightarrow> string \<Rightarrow> string option \<Rightarrow> action" where
  "load_session env user file s =
     (let s1 = emit (LoadSessionFromFile user file) s in
      case load_session_from_file env user file of
        None \<Rightarrow> (None, s1\<lparr>is_logged_in := True\<rparr>)
      | Some (FileNotFoundError m) \<Rightarrow>
          (None, emit (Log ''Session file does not exist yet - Logging in.'')
                   (if file \<noteq> None then emit (Stderr m) s1 else s1))
      | Some e \<Rightarrow> (Some e, s1))"

text \<open>Line 85: \<^verbatim>\<open>not is_logged_in or username != test_login()\<close>, evaluated left to right.\<close>

definition login_needed :: "env \<Rightarrow> string \<Rightarrow> state \<Rightarrow> (exn + bool) \<times> state" where
  "login_needed env user s =
     (if \<not> is_logged_in s then (Inr True, s)
      else (case test_login env of
              Inl e \<Rightarrow> (Inl e, emit TestLogin s)
            | Inr who \<Rightarrow> (Inr (Some user \<noteq> who), emit TestLogin s)))"

text \<open>Lines 86 to 89.\<close>

definition do_login :: "env \<Rightarrow> string \<Rightarrow> string option \<Rightarrow> action" where
  "do_login env user pw s =
     (case pw of
        Some passwd \<Rightarrow>
          (case login env user passwd of
             None \<Rightarrow> (None, (emit (Login user passwd) s)\<lparr>is_logged_in := True\<rparr>)
           | Some e \<Rightarrow> (Some e, emit (Login user passwd) s))
      | None \<Rightarrow>
          (case interactive_login env user of
             None \<Rightarrow> (None, (emit (InteractiveLogin user) s)\<lparr>is_logged_in := True\<rparr>)
           | Some e \<Rightarrow> (Some e, emit (InteractiveLogin user) s)))"

text \<open>Lines 78 to 90.\<close>

definition login_phase :: "env \<Rightarrow> params \<Rightarrow> action" where
  "login_phase env p s =
     (case username p of
        None \<Rightarrow> (None, s)
      | Some user \<Rightarrow>
          (case load_session env user (sessionfile p) s of
             (Some e, s1) \<Rightarrow> (Some e, s1)
           | (None, s1) \<Rightarrow>
               (case login_needed env user s1 of
                  (Inl e, s2) \<Rightarrow> (Some e, s2)
                | (Inr needed, s2) \<Rightarrow>
                    (case (if needed then do_login env user (password p) s2 else (None, s2)) of
                       (Some e, s3) \<Rightarrow> (Some e, s3)
                     | (None, s3) \<Rightarrow> (None, emit (Log (''Logged in as '' @ user @ ''.'')) s3)))))"

subsection \<open>The end of the run\<close>

text \<open>\<^verbatim>\<open>usage_string\<close>; \<open>argv0\<close> is \<^verbatim>\<open>os.path.basename(sys.argv[0])\<close>.\<close>

definition usage_string :: "string \<Rightarrow> string" where
  "usage_string a0 =
     (let name = (if a0 = ''__main__.py'' then ''instaloader'' else a0);
          pad = replicate (length name) CHR '' ''
      in [CHR 0x0A] @ name @ '' [--comments] [--geotags] [--stories]''
         @ [CHR 0x0A] @ pad @ '' [--login YOUR-USERNAME] [--fast-update]''
         @ [CHR 0x0A] @ pad @ '' profile | '' @ [CHR 0x22] @ ''#hashtag'' @ [CHR 0x22]
              @ '' | :stories | :feed | :saved''
         @ [CHR 0x0A] @ name @ '' --help'')"

definition no_targets_msg :: string where
  "no_targets_msg = ''No targets were specified, thus nothing has been downloaded.''"

text \<open>Lines 161 and 162.\<close>

definition save_session :: "env \<Rightarrow> params \<Rightarrow> action" where
  "save_session env p s =
     (if is_logged_in s then call (SaveSessionToFile (sessionfile p)) (save_session_to_file env (sessionfile p)) s
      else (None, s))"

text \<open>Lines 164 to 170.\<close>

definition confusion_hint :: "env \<Rightarrow> params \<Rightarrow> state \<Rightarrow> state" where
  "confusion_hint env p s =
     (if targetlist p = [] then
        (if is_logged_in s then emit (Log no_targets_msg) s
         else emit (Log (''usage:'' @ usage_string (argv0 env))) s)
      else s)"

text \<open>
  Lines 92 to 170: the loops inside \<^verbatim>\<open>try\<close> ... \<^verbatim>\<open>except KeyboardInterrupt\<close>, then the saving
  of the session and the hint. Any other exception of the loops leaves \<^verbatim>\<open>_main\<close>.
\<close>

definition run_and_finish :: "env \<Rightarrow> params \<Rightarrow> ast option \<Rightarrow> ast option \<Rightarrow> action" where
  "run_and_finish env p post_filter storyitem_filter s =
     (case loops env p post_filter storyitem_filter (s\<lparr>profiles := []\<rparr>) of
        (Some KeyboardInterrupt, s1) \<Rightarrow>
          (case save_session env p (emit (Stderr ([CHR 0x0A] @ ''Interrupted by user.'')) s1) of
             (Some e, s2) \<Rightarrow> (Some e, s2)
           | (None, s2) \<Rightarrow> (None, confusion_hint env p s2))
      | (Some e, s1) \<Rightarrow> (Some e, s1)
      | (None, s1) \<Rightarrow>
          (case save_session env p s1 of
             (Some e, s2) \<Rightarrow> (Some e, s2)
           | (None, s2) \<Rightarrow> (None, confusion_hint env p s2)))"

text \<open>\<^verbatim>\<open>_main\<close> (an Isabelle name cannot begin with an underscore).\<close>

definition main_inner :: "env \<Rightarrow> params \<Rightarrow> action" where
  "main_inner env p s =
     (case make_filter env (post_filter_str p) (Post_type env) ''posts'' s of
        (Inl e, s1) \<Rightarrow> (Some e, s1)
      | (Inr post_filter, s1) \<Rightarrow>
          (case make_filter env (storyitem_filter_str p) (StoryItem_type env) ''storyitems'' s1 of
             (Inl e, s2) \<Rightarrow> (Some e, s2)
           | (Inr storyitem_filter, s2) \<Rightarrow>
               (case login_phase env p s2 of
                  (Some e, s3) \<Rightarrow> (Some e, s3)
                | (None, s3) \<Rightarrow> run_and_finish env p post_filter storyitem_filter s3)))"

section \<open>The entry point: \<^verbatim>\<open>main\<close>\<close>

text \<open>
  The parsed command line, as far as the \<^verbatim>\<open>try\<close> block of \<^verbatim>\<open>main\<close> reads it for control flow
  and for the call of \<^verbatim>\<open>_main\<close>. The options that only configure the \<^verbatim>\<open>Instaloader\<close> object
  are left out.
\<close>

record cli_args =
  arg_profile :: "string list"
  arg_login :: "string option"
  arg_password :: "string option"
  arg_sessionfile :: "string option"
  arg_count :: "string option"
  arg_no_profile_pic :: bool
  arg_profile_pic_only :: bool
  arg_fast_update :: bool
  arg_stories :: bool
  arg_stories_only :: bool
  arg_post_filter :: "string option"
  arg_storyitem_filter :: "string option"
  arg_post_metadata_txt :: "string list option"
  arg_storyitem_metadata_txt :: "string list option"
  arg_no_captions :: bool

text \<open>\<^verbatim>\<open>'\n'.join(xs) if xs else None\<close>, and the truth value of the result.\<close>

definition txt_pattern :: "string list option \<Rightarrow> string option" where
  "txt_pattern xs =
     (case xs of None \<Rightarrow> None | Some l \<Rightarrow> if l = [] then None else Some (join [CHR 0x0A] l))"

definition truthy :: "string option \<Rightarrow> bool" where
  "truthy x = (case x of None \<Rightarrow> False | Some str \<Rightarrow> str \<noteq> [])"

definition removed_targets_msg :: string where
  "removed_targets_msg =
     '':feed-all and :feed-liked were removed. Use :feed as target and eventually --post-filter=viewer_has_liked.''"

definition contradicts_msg :: string where
  "contradicts_msg =
     ''--no-captions and --post-metadata-txt or --storyitem-metadata-txt given; That contradicts.''"

definition initial :: state where
  "initial = \<lparr>is_logged_in = False, profiles = [], trace = []\<rparr>"

text \<open>
  Lines 290 to 337. \<^verbatim>\<open>SystemExit(1)\<close> is written \<open>SystemExit ''1''\<close>. An exception of the
  \<^verbatim>\<open>InstaloaderException\<close> family that leaves \<^verbatim>\<open>_main\<close> becomes
  \<^verbatim>\<open>SystemExit("Fatal error: ...")\<close>; every other exception leaves \<^verbatim>\<open>main\<close> as it is.
\<close>

definition main :: "env \<Rightarrow> cli_args \<Rightarrow> exn option \<times> state" where
  "main env a =
     (let no_login = (arg_login a = None \<and> (arg_stories a \<or> arg_stories_only a));
          s1 = (if no_login then emit (Stderr ''--login=USERNAME required to download stories.'') initial
                else initial);
          stories_flag = (if no_login then False else arg_stories a)
      in if no_login \<and> arg_stories_only a then (Some (SystemExit ''1''), s1)
         else if '':feed-all'' \<in> set (arg_profile a) \<or> '':feed-liked'' \<in> set (arg_profile a)
           then (Some (SystemExit removed_targets_msg), s1)
         else if arg_no_captions a
                 \<and> (truthy (txt_pattern (arg_post_metadata_txt a))
                      \<or> truthy (txt_pattern (arg_storyitem_metadata_txt a)))
           then (Some (SystemExit contradicts_msg), s1)
         else
           (case (case arg_count a of
                    None \<Rightarrow> Inr None
                  | Some c \<Rightarrow> (case py_int env c of Inl e \<Rightarrow> Inl e | Inr n \<Rightarrow> Inr (Some n))) of
              Inl e \<Rightarrow> (Some e, s1)
            | Inr count \<Rightarrow>
                (case main_inner env
                        \<lparr>targetlist = arg_profile a,
                         username = map_option (str_lower env) (arg_login a),
                         password = arg_password a,
                         sessionfile = arg_sessionfile a,
                         max_count = count,
                         profile_pic = (\<not> arg_no_profile_pic a),
                         profile_pic_only = arg_profile_pic_only a,
                         fast_update = arg_fast_update a,
                         stories = stories_flag,
                         stories_only = arg_stories_only a,
                         post_filter_str = arg_post_filter a,
                         storyitem_filter_str = arg_storyitem_filter a\<rparr> s1 of
                   (None, s2) \<Rightarrow> (None, emit CloseLoader s2)
                 | (Some e, s2) \<Rightarrow>
                     (Some (if is_InstaloaderException e then SystemExit (''Fatal error: '' @ message e)
                            else e), s2))))"

text \<open>The exit status of the process: 0 when \<^verbatim>\<open>main\<close> returns, not 0 when an exception leaves it.\<close>

definition exit_status :: "exn option \<Rightarrow> nat" where
  "exit_status r = (case r of None \<Rightarrow> 0 | Some e \<Rightarrow> 1)"

section \<open>Reading a trace\<close>

definition error_records :: "event list \<Rightarrow> (string option \<times> exn) list" where
  "error_records tr = concat (map (\<lambda>ev. case ev of ErrorRecord info e \<Rightarrow> [(info, e)] | _ \<Rightarrow> []) tr)"

definition saves :: "event list \<Rightarrow> nat" where
  "saves tr = length (filter (\<lambda>ev. case ev of SaveSessionToFile f \<Rightarrow> True | _ \<Rightarrow> False) tr)"

definition retry_calls :: "event list \<Rightarrow> profile_call list" where
  "retry_calls tr =
     concat (map (\<lambda>ev. case ev of DownloadProfile AnonymousLoader c \<Rightarrow> [c] | _ \<Rightarrow> []) tr)"

text \<open>The user name of an event of the session: loading, logging in.\<close>

definition session_users :: "event list \<Rightarrow> string list" where
  "session_users tr =
     concat (map (\<lambda>ev. case ev of
                          LoadSessionFromFile u f \<Rightarrow> [u]
                        | Login u pw \<Rightarrow> [u]
                        | InteractiveLogin u \<Rightarrow> [u]
                        | _ \<Rightarrow> []) tr)"

text \<open>The state a target or a profile is processed in when it is processed alone.\<close>

definition fresh :: "state \<Rightarrow> state" where
  "fresh s = s\<lparr>profiles := [], trace := []\<rparr>"




text \<open>
  An action is uniform when what it raises and what it emits do not depend on the events so
  far nor on \<^verbatim>\<open>profiles\<close>, and it leaves the login state alone.
\<close>

definition uniform :: "action \<Rightarrow> bool" where
  "uniform f =
     (\<forall>s. fst (f s) = fst (f (fresh s))
          \<and> trace (snd (f s)) = trace s @ trace (snd (f (fresh s)))
          \<and> is_logged_in (snd (f s)) = is_logged_in s)"

text \<open>
  How the loops can end for the session to be saved: normally, or by the interrupt that line
  158 catches.
\<close>

definition reaches_end :: "exn option \<Rightarrow> bool" where
  "reaches_end r = (r = None \<or> r = Some KeyboardInterrupt)"

text \<open>A call of \<^verbatim>\<open>download_profile\<close> that passes no argument about stories.\<close>

definition omits_stories :: "profile_call \<Rightarrow> bool" where
  "omits_stories c =
     (pc_download_stories c = Omitted \<and> pc_download_stories_only c = Omitted
      \<and> pc_storyitem_filter c = Omitted)"

text \<open>
  The events of the three parts of a run. Before the loops: log lines and the events of the
  session of the user. In the loops: no event of the session, and every call on the anonymous
  copy omits the arguments about stories. After the loops: log lines and the saving of the
  session.
\<close>

fun login_event :: "string option \<Rightarrow> event \<Rightarrow> bool" where
  "login_event user (Log m) = True"
| "login_event user (Stderr m) = True"
| "login_event user (LoadSessionFromFile u f) = (user = Some u)"
| "login_event user TestLogin = True"
| "login_event user (Login u pw) = (user = Some u)"
| "login_event user (InteractiveLogin u) = (user = Some u)"
| "login_event user ev = False"

fun loop_event :: "event \<Rightarrow> bool" where
  "loop_event (SaveSessionToFile f) = False"
| "loop_event (LoadSessionFromFile u f) = False"
| "loop_event TestLogin = False"
| "loop_event (Login u pw) = False"
| "loop_event (InteractiveLogin u) = False"
| "loop_event CloseLoader = False"
| "loop_event (DownloadProfile AnonymousLoader c) = omits_stories c"
| "loop_event ev = True"

fun finish_event :: "event \<Rightarrow> bool" where
  "finish_event (Log m) = True"
| "finish_event (Stderr m) = True"
| "finish_event (SaveSessionToFile f) = True"
| "finish_event CloseLoader = True"
| "finish_event ev = False"

section \<open>Sample inputs\<close>

text \<open>
  Two item types with a few of the attributes of \<^verbatim>\<open>Post\<close> and \<^verbatim>\<open>StoryItem\<close>, and a sample
  parser: the trees of \<^verbatim>\<open>ast.parse\<close> for a few filter expressions, and a syntax error for
  every other string, among them the incomplete expression \<^verbatim>\<open>likes >\<close>.
\<close>

definition sample_Post :: item_type where
  "sample_Post =
     \<lparr>type_name = ''Post'',
      attributes = [''shortcode'', ''likes'', ''comments'', ''viewer_has_liked'', ''is_video'', ''date_utc'']\<rparr>"

definition sample_StoryItem :: item_type where
  "sample_StoryItem =
     \<lparr>type_name = ''StoryItem'', attributes = [''mediaid'', ''is_video'', ''date_utc'']\<rparr>"

definition listcomp_tree :: ast where
  "listcomp_tree =
     Node ''Expression''
       [Node ''ListComp''
          [Name ''likes'' Load,
           Node ''comprehension'' [Name ''likes'' Store, Name ''zzz'' Load]]]"

definition rebinding_tree :: ast where
  "rebinding_tree =
     Node ''Expression''
       [Node ''ListComp''
          [Name ''likes'' Load,
           Node ''comprehension'' [Name ''likes'' Store, Name ''comments'' Load]]]"

definition sample_parse :: "string \<Rightarrow> exn + ast" where
  "sample_parse str =
     (if str = ''viewer_has_liked'' then Inr (Node ''Expression'' [Name ''viewer_has_liked'' Load])
      else if str = ''is_video'' then Inr (Node ''Expression'' [Name ''is_video'' Load])
      else if str = ''not_a_real_field'' then Inr (Node ''Expression'' [Name ''not_a_real_field'' Load])
      else if str = ''[likes for likes in zzz]'' then Inr listcomp_tree
      else if str = ''[likes for likes in comments]'' then Inr rebinding_tree
      else Inl (SyntaxError ''invalid syntax''))"

text \<open>
  What \<^verbatim>\<open>str.lower\<close> gives on a string of ASCII characters, which the sample login names are;
  the sample worlds have it as their \<^verbatim>\<open>str.lower\<close>.
\<close>

definition ascii_lower_char :: "char \<Rightarrow> char" where
  "ascii_lower_char c =
     (case map_of (zip ''ABCDEFGHIJKLMNOPQRSTUVWXYZ'' ''abcdefghijklmnopqrstuvwxyz'') c of
        Some l \<Rightarrow> l
      | None \<Rightarrow> c)"

definition ascii_lower :: "string \<Rightarrow> string" where
  "ascii_lower s = map ascii_lower_char s"

text \<open>An outside world in which no session file exists and no call raises.\<close>

definition calm :: env where
  "calm =
     \<lparr>argv0 = ''instaloader'',
      ast_parse = sample_parse,
      py_compile = (\<lambda>tree. None),
      py_eval = (\<lambda>f item. Inr True),
      py_int = (\<lambda>str. Inl (ValueError ''invalid literal for int()'')),
      str_lower = ascii_lower,
      Post_type = sample_Post,
      StoryItem_type = sample_StoryItem,
      isfile = (\<lambda>path. False),
      load_session_from_file = (\<lambda>user file. Some (FileNotFoundError ''No such file or directory'')),
      test_login = Inr None,
      login = (\<lambda>user passwd. None),
      interactive_login = (\<lambda>user. None),
      load_structure_from_file = (\<lambda>path. Inl (FileNotFoundError ''No such file or directory'')),
      download_post = (\<lambda>item dir. None),
      download_storyitem = (\<lambda>item dir. None),
      get_followees = (\<lambda>name. Inr []),
      download_hashtag = (\<lambda>name. None),
      download_feed_posts = None,
      download_stories = None,
      download_saved_posts = None,
      download_profile = (\<lambda>receiver name. None),
      save_session_to_file = (\<lambda>file. None)\<rparr>"

text \<open>A command line with no option and no target.\<close>

definition bare :: cli_args where
  "bare =
     \<lparr>arg_profile = [], arg_login = None, arg_password = None, arg_sessionfile = None,
      arg_count = None, arg_no_profile_pic = False, arg_profile_pic_only = False,
      arg_fast_update = False, arg_stories = False, arg_stories_only = False,
      arg_post_filter = None, arg_storyitem_filter = None, arg_post_metadata_txt = None,
      arg_storyitem_metadata_txt = None, arg_no_captions = False\<rparr>"

text \<open>The defaults of the parameters of \<^verbatim>\<open>_main\<close>, with no target.\<close>

definition defaults :: params where
  "defaults =
     \<lparr>targetlist = [], username = None, password = None, sessionfile = None, max_count = None,
      profile_pic = True, profile_pic_only = False, fast_update = False, stories = False,
      stories_only = False, post_filter_str = None, storyitem_filter_str = None\<rparr>"


text \<open>
  An outside world in which the logged-in user is blocked by \<^verbatim>\<open>carol\<close>: the profile does not
  exist for the loader of the session, and exists for an anonymous one. A session file exists
  and is valid for \<^verbatim>\<open>alice\<close>.
\<close>

definition blocked :: env where
  "blocked =
     calm\<lparr>load_session_from_file := (\<lambda>user file. None),
          test_login := Inr (Some ''alice''),
          download_profile :=
            (\<lambda>receiver name.
               if receiver = TheLoader \<and> name = ''carol''
               then Some (ProfileNotExistsException ''Profile carol does not exist.'')
               else None)\<rparr>"

definition logged_in :: state where
  "logged_in = \<lparr>is_logged_in = True, profiles = [], trace = []\<rparr>"

text \<open>Parameters that ask for the stories of \<^verbatim>\<open>carol\<close> and filter story items.\<close>

definition with_stories :: params where
  "with_stories =
     defaults\<lparr>targetlist := [''carol''], stories := True,
              storyitem_filter_str := Some ''is_video''\<rparr>"

text \<open>
  An outside world in which the user interrupts the download of \<^verbatim>\<open>bob\<close>, and a run as
  \<^verbatim>\<open>alice\<close> over three accounts.
\<close>

definition interrupted :: env where
  "interrupted =
     blocked\<lparr>download_profile :=
               (\<lambda>receiver name. if name = ''bob'' then Some KeyboardInterrupt else None)\<rparr>"

definition as_alice :: params where
  "as_alice = defaults\<lparr>targetlist := [''ann'', ''bob'', ''carol''], username := Some ''alice''\<rparr>"

text \<open>
  An outside world in which \<^verbatim>\<open>alice.json\<close> is a file that holds a \<^verbatim>\<open>Profile\<close>, and a command
  line that names it before a hashtag.
\<close>

definition profile_json :: env where
  "profile_json =
     calm\<lparr>isfile := (\<lambda>path. path = ''alice.json''),
          load_structure_from_file := (\<lambda>path. Inr (Profile ''alice''))\<rparr>"

definition json_then_hashtag :: cli_args where
  "json_then_hashtag = bare\<lparr>arg_profile := [''alice.json'', ''#cats'']\<rparr>"






section \<open>Basic facts\<close>

lemma emit_simps [simp]:
  "trace (emit ev s) = trace s @ [ev]"
  "is_logged_in (emit ev s) = is_logged_in s"
  "profiles (emit ev s) = profiles s"
  by (simp_all add: emit_def)

lemma fresh_simps [simp]:
  "trace (fresh s) = []"
  "is_logged_in (fresh s) = is_logged_in s"
  "profiles (fresh s) = []"
  by (simp_all add: fresh_def)


lemma initial_simps [simp]:
  "trace initial = []" "is_logged_in initial = False" "profiles initial = []" "fresh initial = initial"
  by (simp_all add: initial_def fresh_def)


lemma defaults_simps:
  "max_count defaults = None" "fast_update defaults = False" "profile_pic defaults = True"
  "profile_pic_only defaults = False" "stories defaults = False" "stories_only defaults = False"
  by (simp_all add: defaults_def)

section \<open>The filter compiler\<close>

lemma find_app: "find P (xs @ ys) = (case find P xs of None \<Rightarrow> find P ys | Some x \<Rightarrow> Some x)"
  by (induction xs) auto

lemma visit_find:
  "visit ty t = (case find (offending ty) (names t) of None \<Rightarrow> Inr (rewrite t) | Some n \<Rightarrow> Inl (name_fault ty n))"
  "visit_children ty ts = (case find (offending ty) (names_children ts) of None \<Rightarrow> Inr (map rewrite ts) | Some n \<Rightarrow> Inl (name_fault ty n))"
proof (induction ty t and ty ts rule: visit_visit_children.induct)
  case (1 ty ident ctx)
  then show ?case by (simp add: offending_def undeclared_def name_fault_def)
next
  case (2 ty v attr ctx)
  then show ?case by (simp split: option.splits)
next
  case (3 ty c)
  then show ?case by simp
next
  case (4 ty cls children)
  then show ?case by (simp split: option.splits)
next
  case (5 ty)
  then show ?case by simp
next
  case (6 ty c cs)
  then show ?case by (simp add: find_app split: option.splits)
qed

text \<open>
  The audit in one equation: a syntax error of the parser leaves \<^verbatim>\<open>filterstr_to_filterfunc\<close>
  as it is; otherwise the first offending occurrence in visiting order decides the fault; a
  tree with no offending occurrence is handed to \<^verbatim>\<open>compile\<close> with every attribute name \<open>n\<close>
  rewritten to \<^verbatim>\<open>item.n\<close>.
\<close>

lemma filter_audit:
  "filterstr_to_filterfunc parse_fn compile_fn str ty =
     (case parse_fn str of
        Inl e \<Rightarrow> Inl e
      | Inr tree \<Rightarrow>
          (case find (offending ty) (names tree) of
             Some n \<Rightarrow> Inl (name_fault ty n)
           | None \<Rightarrow> (case compile_fn (rewrite tree) of Some e \<Rightarrow> Inl e | None \<Rightarrow> Inr (rewrite tree))))"
proof (cases "parse_fn str")
  case (Inl e)
  then show ?thesis by (simp add: filterstr_to_filterfunc_def)
next
  case (Inr tree)
  show ?thesis
  proof (cases "find (offending ty) (names tree)")
    case None
    then have "visit ty tree = Inr (rewrite tree)" by (simp add: visit_find)
    then show ?thesis using Inr None by (simp add: filterstr_to_filterfunc_def)
  next
    case (Some n)
    then have "visit ty tree = Inl (name_fault ty n)" by (simp add: visit_find)
    then show ?thesis using Inr Some by (simp add: filterstr_to_filterfunc_def)
  qed
qed

text \<open>
  When a tree both binds a name and loads an undeclared one, the occurrence visited first
  decides: in \<^verbatim>\<open>[likes for likes in zzz]\<close> the binding of \<^verbatim>\<open>likes\<close> is visited before the load
  of \<^verbatim>\<open>zzz\<close>.
\<close>

lemma first_visited_decides:
  "filterstr_to_filterfunc sample_parse (\<lambda>t. None) ''[likes for likes in zzz]'' sample_Post
     = Inl (InvalidArgumentException ''Invalid filter: Modifying variables (likes) not allowed.'')
   \<and> (''zzz'', Load) \<in> set (names listcomp_tree)
   \<and> \<not> hasattr sample_Post ''zzz''
   \<and> sample_parse ''[likes for likes in zzz]'' = Inr listcomp_tree"
  by (simp add: filterstr_to_filterfunc_def sample_parse_def listcomp_tree_def sample_Post_def
      hasattr_def modifying_msg_def)

lemma find_SomeD: "find P xs = Some x \<Longrightarrow> x \<in> set xs \<and> P x"
  by (induction xs) (auto split: if_splits)

lemma find_ex: "\<exists>x\<in>set xs. P x \<Longrightarrow> \<exists>y. find P xs = Some y"
  by (induction xs) auto

text \<open>
  Claim C1. Compilation fails before any evaluation, with the fault the claim names. A syntax
  error of the parser is the fault of \<^verbatim>\<open>filterstr_to_filterfunc\<close>. When every bare name is
  loaded and one of them is undeclared, the fault is the name fault (the
  \<^verbatim>\<open>InvalidArgumentException\<close> "not a ... attribute") for an undeclared name of the expression.
  When a name is bound, deleted or otherwise not loaded, and every loaded name is declared, the
  fault is the assignment fault (the \<^verbatim>\<open>InvalidArgumentException\<close> "Modifying variables") for
  such a name. Whenever a name offends, in either way or both, compilation fails with the
  fault of an offending name. When every bare name is a load of a declared attribute or of
  \<^verbatim>\<open>datetime\<close>, the audit of the transformer raises nothing, and compilation succeeds when
  the built-in \<^verbatim>\<open>compile\<close> accepts the rewritten tree.
\<close>

theorem filter_compile_faults:
  "(parse_fn str = Inl e \<longrightarrow> filterstr_to_filterfunc parse_fn compile_fn str ty = Inl e)
   \<and> (parse_fn str = Inr tree \<longrightarrow>
        ((\<forall>n\<in>set (names tree). snd n = Load) \<and> (\<exists>n\<in>set (names tree). undeclared ty (fst n)) \<longrightarrow>
           (\<exists>ident. (ident, Load) \<in> set (names tree) \<and> undeclared ty ident
              \<and> filterstr_to_filterfunc parse_fn compile_fn str ty
                  = Inl (InvalidArgumentException (not_attribute_msg ty ident))))
      \<and> ((\<exists>n\<in>set (names tree). snd n \<noteq> Load)
           \<and> (\<forall>n\<in>set (names tree). snd n = Load \<longrightarrow> \<not> undeclared ty (fst n)) \<longrightarrow>
           (\<exists>ident ctx. (ident, ctx) \<in> set (names tree) \<and> ctx \<noteq> Load
              \<and> filterstr_to_filterfunc parse_fn compile_fn str ty
                  = Inl (InvalidArgumentException (modifying_msg ident))))
      \<and> ((\<exists>n\<in>set (names tree). offending ty n) \<longrightarrow>
           (\<exists>n\<in>set (names tree). offending ty n
              \<and> filterstr_to_filterfunc parse_fn compile_fn str ty = Inl (name_fault ty n)))
      \<and> ((\<forall>n\<in>set (names tree). snd n = Load \<and> \<not> undeclared ty (fst n))
           \<and> compile_fn (rewrite tree) = None \<longrightarrow>
           filterstr_to_filterfunc parse_fn compile_fn str ty = Inr (rewrite tree))
      \<and> ((\<forall>n\<in>set (names tree). snd n = Load \<and> \<not> undeclared ty (fst n)) \<longrightarrow>
           visit ty tree = Inr (rewrite tree)))"
proof (intro conjI impI)
  assume "parse_fn str = Inl e"
  then show "filterstr_to_filterfunc parse_fn compile_fn str ty = Inl e"
    by (simp add: filterstr_to_filterfunc_def)
next
  assume p: "parse_fn str = Inr tree"
    and h: "(\<forall>n\<in>set (names tree). snd n = Load) \<and> (\<exists>n\<in>set (names tree). undeclared ty (fst n))"
  then have "\<exists>n\<in>set (names tree). offending ty n" unfolding offending_def by blast
  then obtain n where f: "find (offending ty) (names tree) = Some n"
    using find_ex [of "names tree" "offending ty"] by auto
  have m: "n \<in> set (names tree)" and o: "offending ty n" using find_SomeD [OF f] by simp_all
  have l: "snd n = Load" using h m by blast
  then have u: "undeclared ty (fst n)" using o by (simp add: offending_def)
  have "filterstr_to_filterfunc parse_fn compile_fn str ty
          = Inl (InvalidArgumentException (not_attribute_msg ty (fst n)))"
    using p f l by (simp add: filter_audit name_fault_def)
  moreover have "(fst n, Load) \<in> set (names tree)" using m l by (metis prod.collapse)
  ultimately show "\<exists>ident. (ident, Load) \<in> set (names tree) \<and> undeclared ty ident
              \<and> filterstr_to_filterfunc parse_fn compile_fn str ty
                  = Inl (InvalidArgumentException (not_attribute_msg ty ident))"
    using u by blast
next
  assume p: "parse_fn str = Inr tree"
    and h: "(\<exists>n\<in>set (names tree). snd n \<noteq> Load)
           \<and> (\<forall>n\<in>set (names tree). snd n = Load \<longrightarrow> \<not> undeclared ty (fst n))"
  then have "\<exists>n\<in>set (names tree). offending ty n" unfolding offending_def by blast
  then obtain n where f: "find (offending ty) (names tree) = Some n"
    using find_ex [of "names tree" "offending ty"] by auto
  have m: "n \<in> set (names tree)" and o: "offending ty n" using find_SomeD [OF f] by simp_all
  have l: "snd n \<noteq> Load" using h m o by (auto simp: offending_def)
  have "filterstr_to_filterfunc parse_fn compile_fn str ty
          = Inl (InvalidArgumentException (modifying_msg (fst n)))"
    using p f l by (simp add: filter_audit name_fault_def)
  moreover have "(fst n, snd n) \<in> set (names tree)" using m by simp
  ultimately show "\<exists>ident ctx. (ident, ctx) \<in> set (names tree) \<and> ctx \<noteq> Load
              \<and> filterstr_to_filterfunc parse_fn compile_fn str ty
                  = Inl (InvalidArgumentException (modifying_msg ident))"
    using l by blast
next
  assume p: "parse_fn str = Inr tree" and h: "\<exists>n\<in>set (names tree). offending ty n"
  then obtain n where f: "find (offending ty) (names tree) = Some n"
    using find_ex [of "names tree" "offending ty"] by auto
  have m: "n \<in> set (names tree)" and o: "offending ty n" using find_SomeD [OF f] by simp_all
  have "filterstr_to_filterfunc parse_fn compile_fn str ty = Inl (name_fault ty n)"
    using p f by (simp add: filter_audit)
  then show "\<exists>n\<in>set (names tree). offending ty n
              \<and> filterstr_to_filterfunc parse_fn compile_fn str ty = Inl (name_fault ty n)"
    using m o by blast
next
  assume p: "parse_fn str = Inr tree"
    and h: "(\<forall>n\<in>set (names tree). snd n = Load \<and> \<not> undeclared ty (fst n))
           \<and> compile_fn (rewrite tree) = None"
  have "find (offending ty) (names tree) = None"
  proof (cases "find (offending ty) (names tree)")
    case (Some n)
    then have "n \<in> set (names tree) \<and> offending ty n" by (rule find_SomeD)
    then show ?thesis using h by (auto simp: offending_def)
  qed simp
  then show "filterstr_to_filterfunc parse_fn compile_fn str ty = Inr (rewrite tree)"
    using p h by (simp add: filter_audit)
next
  assume h: "\<forall>n\<in>set (names tree). snd n = Load \<and> \<not> undeclared ty (fst n)"
  have "find (offending ty) (names tree) = None"
  proof (cases "find (offending ty) (names tree)")
    case (Some n)
    then have "n \<in> set (names tree) \<and> offending ty n" by (rule find_SomeD)
    then show ?thesis using h by (auto simp: offending_def)
  qed simp
  then show "visit ty tree = Inr (rewrite tree)" by (simp add: visit_find)
qed

theorem filter_compile_faults_witness:
  "filterstr_to_filterfunc sample_parse (\<lambda>t. None) ''likes >'' sample_Post
     = Inl (SyntaxError ''invalid syntax'')
   \<and> filterstr_to_filterfunc sample_parse (\<lambda>t. None) ''not_a_real_field'' sample_Post
     = Inl (InvalidArgumentException ''Invalid filter: not_a_real_field not a Post attribute.'')
   \<and> filterstr_to_filterfunc sample_parse (\<lambda>t. None) ''[likes for likes in comments]'' sample_Post
     = Inl (InvalidArgumentException ''Invalid filter: Modifying variables (likes) not allowed.'')
   \<and> filterstr_to_filterfunc sample_parse (\<lambda>t. None) ''viewer_has_liked'' sample_Post
     = Inr (Node ''Expression'' [Attribute (Name ''item'' Load) ''viewer_has_liked'' Load])"
proof -
  let ?c = "\<lambda>t::ast. None :: exn option"
  have 1: "sample_parse ''likes >'' = Inl (SyntaxError ''invalid syntax'')"
    by (simp add: sample_parse_def)
  have 2: "sample_parse ''not_a_real_field'' = Inr (Node ''Expression'' [Name ''not_a_real_field'' Load])"
    by (simp add: sample_parse_def)
  have 3: "sample_parse ''[likes for likes in comments]'' = Inr rebinding_tree"
    by (simp add: sample_parse_def)
  have 4: "sample_parse ''viewer_has_liked'' = Inr (Node ''Expression'' [Name ''viewer_has_liked'' Load])"
    by (simp add: sample_parse_def)
  have a: "filterstr_to_filterfunc sample_parse ?c ''likes >'' sample_Post
     = Inl (SyntaxError ''invalid syntax'')"
    using filter_compile_faults [of sample_parse "''likes >''" "SyntaxError ''invalid syntax''" ?c sample_Post]
      1 by simp
  have b: "filterstr_to_filterfunc sample_parse ?c ''not_a_real_field'' sample_Post
     = Inl (InvalidArgumentException ''Invalid filter: not_a_real_field not a Post attribute.'')"
    using filter_compile_faults [of sample_parse "''not_a_real_field''" _ ?c sample_Post
        "Node ''Expression'' [Name ''not_a_real_field'' Load]"] 2
    by (simp add: undeclared_def hasattr_def sample_Post_def not_attribute_msg_def)
  have c: "filterstr_to_filterfunc sample_parse ?c ''[likes for likes in comments]'' sample_Post
     = Inl (InvalidArgumentException ''Invalid filter: Modifying variables (likes) not allowed.'')"
    using filter_compile_faults [of sample_parse "''[likes for likes in comments]''" _ ?c sample_Post
        rebinding_tree] 3
    by (auto simp: rebinding_tree_def undeclared_def hasattr_def sample_Post_def modifying_msg_def)
  have d: "filterstr_to_filterfunc sample_parse ?c ''viewer_has_liked'' sample_Post
     = Inr (Node ''Expression'' [Attribute (Name ''item'' Load) ''viewer_has_liked'' Load])"
    using filter_compile_faults [of sample_parse "''viewer_has_liked''" _ ?c sample_Post
        "Node ''Expression'' [Name ''viewer_has_liked'' Load]"] 4
    by (simp add: undeclared_def hasattr_def sample_Post_def)
  show ?thesis using a b c d by simp
qed

section \<open>Classification of a raw target\<close>

text \<open>
  Claim C5 fails on the code: the empty string, and a string of separators only, reach
  \<^verbatim>\<open>target[0]\<close> and raise \<^verbatim>\<open>IndexError\<close>, which is outside the \<^verbatim>\<open>InstaloaderException\<close> family,
  so the boundary lets it through and it ends the run.
\<close>

theorem classify_raises_on_empty:
  "classify isfile_fn [] = Inl (IndexError ''string index out of range'')
   \<and> classify isfile_fn ''/'' = Inl (IndexError ''string index out of range'')
   \<and> fst (main calm (bare\<lparr>arg_profile := [''/'', ''alice'']\<rparr>))
       = Some (IndexError ''string index out of range'')"
  by (simp add: classify_def is_descriptor_file_def endswith_def classify_sigil_def rstrip_def
      main_def bare_def main_inner_def make_filter_def login_phase_def run_and_finish_def
      loops_def targets_loop_def process_target_def error_catcher_def target_body_def calm_def)

theorem classify_raises_on_empty_witness:
  "classify (\<lambda>path. True) [] = Inl (IndexError ''string index out of range'')"
  using classify_raises_on_empty [of "\<lambda>path. True"] by simp

lemma endswith_last: "endswith s suffix \<Longrightarrow> suffix \<noteq> [] \<Longrightarrow> s \<noteq> [] \<and> last s = last suffix"
  unfolding endswith_def
  by (metis append_take_drop_id last_appendR length_0_conv diff_is_0_eq' drop_all le_antisym le_zero_eq list.size(3) drop0)

text \<open>
  Claim C8. A raw target that ends with the separator never takes the local file branch,
  whatever the file system holds, because the suffix test reads the raw string; it is
  classified by the chain of line 121 on the stripped string.
\<close>

theorem trailing_separator:
  assumes "raw \<noteq> []" and "last raw = CHR ''/''"
  shows "\<not> is_descriptor_file isfile_fn raw
         \<and> classify isfile_fn raw = classify_sigil (rstrip raw)
         \<and> classify isfile_fn raw \<noteq> Inr (LocalDescriptorFile path)"
proof -
  have a: "\<not> endswith raw ''.json''" using endswith_last [of raw "''.json''"] assms by auto
  have b: "\<not> endswith raw ''.json.xz''" using endswith_last [of raw "''.json.xz''"] assms by auto
  have c: "classify_sigil t \<noteq> Inr (LocalDescriptorFile path)" for t
    by (simp add: classify_sigil_def split: list.splits)
  show ?thesis using a b c by (simp add: is_descriptor_file_def classify_def)
qed

theorem trailing_separator_witness:
  "''a.json/'' \<noteq> [] \<and> last ''a.json/'' = CHR ''/''
   \<and> endswith (rstrip ''a.json/'') ''.json''
   \<and> \<not> is_descriptor_file (\<lambda>path. True) ''a.json/''
   \<and> classify (\<lambda>path. True) ''a.json/'' = Inr (AccountName ''a.json'')"
  using trailing_separator [of "''a.json/''" "\<lambda>path. True" "''a.json/''"]
  by (simp add: classify_sigil_def rstrip_def endswith_def)

section \<open>Failure isolation\<close>

lemma uniform_call: "uniform (call ev outcome)"
  by (simp add: uniform_def call_def)

lemma uniform_error_catcher:
  assumes "uniform f"
  shows "uniform (error_catcher info f)"
  unfolding uniform_def
proof
  fix s
  obtain r s' where a: "f s = (r, s')" by (cases "f s")
  obtain r0 s0 where b: "f (fresh s) = (r0, s0)" by (cases "f (fresh s)")
  from assms a b have "r = r0" "trace s' = trace s @ trace s0" "is_logged_in s' = is_logged_in s"
    unfolding uniform_def by (metis fst_conv, metis snd_conv, metis snd_conv)
  then show "fst (error_catcher info f s) = fst (error_catcher info f (fresh s)) \<and>
         trace (snd (error_catcher info f s)) =
         trace s @ trace (snd (error_catcher info f (fresh s))) \<and>
         is_logged_in (snd (error_catcher info f s)) = is_logged_in s"
    using a b by (simp add: error_catcher_def split: option.splits)
qed

lemma uniform_local_file_body: "uniform (local_file_body env pf sf target)"
  by (simp add: uniform_def local_file_body_def call_def Let_def
      split: sum.splits jsonexportable.splits bool.splits)

lemma uniform_branch_body: "uniform (branch_body env p pf sf t)"
proof (cases t)
  case (LocalDescriptorFile path)
  have "branch_body env p pf sf (LocalDescriptorFile path) = local_file_body env pf sf path"
    by (rule ext) simp
  then show ?thesis using LocalDescriptorFile uniform_local_file_body by simp
next
  case (AccountFollowees name)
  then show ?thesis by (simp add: uniform_def Let_def split: sum.splits)
qed (simp_all add: uniform_def call_def)

lemma uniform_target_body: "uniform (target_body env p pf sf raw)"
proof (cases "classify (isfile env) raw")
  case (Inl e)
  then show ?thesis by (simp add: uniform_def target_body_def)
next
  case (Inr t)
  then have "target_body env p pf sf raw = branch_body env p pf sf t"
    by (intro ext) (simp add: target_body_def)
  then show ?thesis using uniform_branch_body by simp
qed

lemma uniform_process_target: "uniform (process_target env p pf sf raw)"
proof -
  have "process_target env p pf sf raw = error_catcher (Some (label env raw)) (target_body env p pf sf raw)"
    by (rule ext) (simp add: process_target_def)
  then show ?thesis by (simp add: uniform_error_catcher uniform_target_body)
qed

lemma uniform_anonymous_retry: "uniform (anonymous_retry env p pf target)"
  by (simp add: uniform_def anonymous_retry_def error_catcher_def call_def split: option.splits)

lemma uniform_profile_body: "uniform (profile_body env p pf sf target)"
  unfolding uniform_def
proof
  fix s
  let ?f = "anonymous_retry env p pf target"
  have u: "\<And>s1. fst (?f s1) = fst (?f (fresh s1)) \<and> trace (snd (?f s1)) = trace s1 @ trace (snd (?f (fresh s1)))
        \<and> is_logged_in (snd (?f s1)) = is_logged_in s1"
    using uniform_anonymous_retry [of env p pf target] unfolding uniform_def by blast
  show "fst (profile_body env p pf sf target s) = fst (profile_body env p pf sf target (fresh s)) \<and>
         trace (snd (profile_body env p pf sf target s)) =
         trace s @ trace (snd (profile_body env p pf sf target (fresh s))) \<and>
         is_logged_in (snd (profile_body env p pf sf target s)) = is_logged_in s"
    apply (simp add: profile_body_def call_def split: option.splits exn.splits)
    apply (simp add: anonymous_retry_def error_catcher_def call_def split: option.splits)
    done
qed

lemma uniform_process_profile: "uniform (process_profile env p pf sf target)"
proof -
  have "process_profile env p pf sf target = error_catcher (Some target) (profile_body env p pf sf target)"
    by (rule ext) (simp add: process_profile_def)
  then show ?thesis by (simp add: uniform_error_catcher uniform_profile_body)
qed

lemma uniformD:
  assumes "uniform f"
  shows "fst (f s) = fst (f (fresh s))"
    and "trace (snd (f s)) = trace s @ trace (snd (f (fresh s)))"
    and "is_logged_in (snd (f s)) = is_logged_in s"
  using assms unfolding uniform_def by blast+


lemma error_records_append [simp]: "error_records (xs @ ys) = error_records xs @ error_records ys"
  by (simp add: error_records_def)


lemma error_records_simps [simp]:
  "error_records [] = []"
  "error_records (ErrorRecord info e # tr) = (info, e) # error_records tr"
  by (simp_all add: error_records_def)






lemma set_set_add [simp]: "set (set_add x xs) = insert x (set xs)"
  by (auto simp: set_add_def)

lemma distinct_set_add [simp]: "distinct xs \<Longrightarrow> distinct (set_add x xs)"
  by (simp add: set_add_def)

lemma set_set_update [simp]: "set (set_update new xs) = set new \<union> set xs"
  unfolding set_update_def by (induction new arbitrary: xs) auto

lemma distinct_set_update [simp]: "distinct xs \<Longrightarrow> distinct (set_update new xs)"
  unfolding set_update_def by (induction new arbitrary: xs) auto















section \<open>The anonymous retry\<close>

lemma blocked_simps:
  "download_profile blocked = (\<lambda>receiver name.
               if receiver = TheLoader \<and> name = ''carol''
               then Some (ProfileNotExistsException ''Profile carol does not exist.'')
               else None)"
  "isfile blocked = (\<lambda>path. False)"
  "save_session_to_file blocked = (\<lambda>file. None)"
  "ast_parse blocked = sample_parse"
  "py_compile blocked = (\<lambda>tree. None)"
  "Post_type blocked = sample_Post"
  "StoryItem_type blocked = sample_StoryItem"
  "load_session_from_file blocked = (\<lambda>user file. None)"
  "test_login blocked = Inr (Some ''alice'')"
  "argv0 blocked = ''instaloader''"
  by (simp_all add: blocked_def calm_def)

lemma logged_in_simps [simp]:
  "trace logged_in = []" "is_logged_in logged_in = True" "profiles logged_in = []"
  by (simp_all add: logged_in_def)

lemma env_simps:
  "argv0 calm = ''instaloader''" "isfile calm = (\<lambda>path. False)"
  "ast_parse calm = sample_parse" "py_compile calm = (\<lambda>tree. None)"
  "Post_type calm = sample_Post" "StoryItem_type calm = sample_StoryItem"
  "save_session_to_file calm = (\<lambda>file. None)"
  "download_profile calm = (\<lambda>receiver name. None)"
  "download_hashtag calm = (\<lambda>name. None)"
  "py_int calm = (\<lambda>str. Inl (ValueError ''invalid literal for int()''))"
  "isfile interrupted = (\<lambda>path. False)"
  "load_session_from_file interrupted = (\<lambda>user file. None)"
  "test_login interrupted = Inr (Some ''alice'')"
  "download_profile interrupted = (\<lambda>receiver name. if name = ''bob'' then Some KeyboardInterrupt else None)"
  "save_session_to_file interrupted = (\<lambda>file. None)"
  "isfile profile_json = (\<lambda>path. path = ''alice.json'')"
  "load_structure_from_file profile_json = (\<lambda>path. Inr (Profile ''alice''))"
  "download_hashtag profile_json = (\<lambda>name. None)"
  "save_session_to_file profile_json = (\<lambda>file. None)"
  "argv0 profile_json = ''instaloader''"
  by (simp_all add: calm_def interrupted_def blocked_def profile_json_def)

lemma params_simps:
  "targetlist defaults = []" "username defaults = None" "password defaults = None"
  "sessionfile defaults = None" "post_filter_str defaults = None"
  "storyitem_filter_str defaults = None"
  "targetlist as_alice = [''ann'', ''bob'', ''carol'']" "username as_alice = Some ''alice''"
  "password as_alice = None" "sessionfile as_alice = None" "post_filter_str as_alice = None"
  "storyitem_filter_str as_alice = None"
  "targetlist with_stories = [''carol'']" "username with_stories = None"
  "sessionfile with_stories = None" "post_filter_str with_stories = None"
  "storyitem_filter_str with_stories = Some ''is_video''"
  "stories with_stories = True" "stories_only with_stories = False"
  by (simp_all add: defaults_def as_alice_def with_stories_def)

lemmas unfold_run =
  main_inner_def make_filter_def login_phase_def load_session_def login_needed_def do_login_def
  run_and_finish_def loops_def targets_loop_def profiles_loop_def process_target_def
  process_profile_def target_body_def profile_body_def anonymous_retry_def error_catcher_def
  call_def classify_def is_descriptor_file_def classify_sigil_def label_def rstrip_def endswith_def
  save_session_def confusion_hint_def set_add_def set_update_def

text \<open>
  Claim C3. Let the download of an account raise \<^verbatim>\<open>ProfileNotExistsException\<close>. When the session
  is logged in, the body logs the fault and the notice, makes one anonymous copy and calls
  \<^verbatim>\<open>download_profile\<close> on it once, for the same account; a fault of that retry is recorded
  by the retry's own boundary and nothing more is tried. When the session is not logged in,
  there is no retry: the fault leaves the body as it is and the boundary of the account
  records it.
\<close>

theorem anonymous_retry_protocol:
  assumes "download_profile env TheLoader t = Some (ProfileNotExistsException m)"
  shows "if is_logged_in s then
           trace (snd (profile_body env p pf sf t s))
             = trace s
               @ [DownloadProfile TheLoader (first_call p pf sf t), Log m, Log trying_again_msg,
                  AnonymousCopy, DownloadProfile AnonymousLoader (retry_call p pf t)]
               @ (case download_profile env AnonymousLoader t of
                    None \<Rightarrow> []
                  | Some e \<Rightarrow> if is_InstaloaderException e then [ErrorRecord None e] else [])
           \<and> fst (profile_body env p pf sf t s)
             = (case download_profile env AnonymousLoader t of
                  None \<Rightarrow> None
                | Some e \<Rightarrow> if is_InstaloaderException e then None else Some e)
         else
           profile_body env p pf sf t s
             = (Some (ProfileNotExistsException m),
                emit (DownloadProfile TheLoader (first_call p pf sf t)) s)
           \<and> retry_calls (trace (snd (process_profile env p pf sf t s))) = retry_calls (trace s)
           \<and> process_profile env p pf sf t s
             = (None, emit (ErrorRecord (Some t) (ProfileNotExistsException m))
                        (emit (DownloadProfile TheLoader (first_call p pf sf t)) s))"
  using assms
  by (simp add: profile_body_def process_profile_def call_def anonymous_retry_def error_catcher_def
      retry_calls_def split: option.splits)

theorem anonymous_retry_protocol_witness:
  "download_profile blocked TheLoader ''carol''
     = Some (ProfileNotExistsException ''Profile carol does not exist.'')
   \<and> trace (snd (profile_body blocked with_stories None None ''carol'' logged_in))
     = [DownloadProfile TheLoader (first_call with_stories None None ''carol''),
        Log ''Profile carol does not exist.'', Log trying_again_msg, AnonymousCopy,
        DownloadProfile AnonymousLoader (retry_call with_stories None ''carol'')]
   \<and> process_profile blocked with_stories None None ''carol'' initial
     = (None, emit (ErrorRecord (Some ''carol'') (ProfileNotExistsException ''Profile carol does not exist.''))
                (emit (DownloadProfile TheLoader (first_call with_stories None None ''carol'')) initial))"
proof -
  have h: "download_profile blocked TheLoader ''carol''
     = Some (ProfileNotExistsException ''Profile carol does not exist.'')"
    by (simp add: blocked_simps)
  show ?thesis
    using h anonymous_retry_protocol [OF h, of logged_in with_stories None None]
      anonymous_retry_protocol [OF h, of initial with_stories None None]
    by (simp add: blocked_simps)
qed

section \<open>The events of a run\<close>

lemma saves_append [simp]: "saves (xs @ ys) = saves xs + saves ys"
  by (simp add: saves_def)

lemma retry_calls_append [simp]: "retry_calls (xs @ ys) = retry_calls xs @ retry_calls ys"
  by (simp add: retry_calls_def)

lemma session_users_append [simp]: "session_users (xs @ ys) = session_users xs @ session_users ys"
  by (simp add: session_users_def)

lemma reads_Nil [simp]: "saves [] = 0" "retry_calls [] = []" "session_users [] = []"
  by (simp_all add: saves_def retry_calls_def session_users_def)

lemma loop_event_reads:
  "list_all loop_event evs \<Longrightarrow>
     saves evs = 0 \<and> session_users evs = [] \<and> list_all omits_stories (retry_calls evs)"
proof (induction evs)
  case Nil
  then show ?case by simp
next
  case (Cons ev evs)
  then have "loop_event ev" and ih: "saves evs = 0 \<and> session_users evs = [] \<and> list_all omits_stories (retry_calls evs)"
    by simp_all
  then show ?case
  proof (cases ev)
    case (DownloadProfile receiver c)
    then show ?thesis using \<open>loop_event ev\<close> ih
      by (cases receiver) (simp_all add: saves_def session_users_def retry_calls_def)
  qed (simp_all add: saves_def session_users_def retry_calls_def)
qed

lemma login_event_reads:
  "list_all (login_event user) evs \<Longrightarrow>
     saves evs = 0 \<and> retry_calls evs = [] \<and> set (session_users evs) \<subseteq> set_option user"
proof (induction evs)
  case Nil
  then show ?case by simp
next
  case (Cons ev evs)
  then have "login_event user ev" and ih: "saves evs = 0 \<and> retry_calls evs = [] \<and> set (session_users evs) \<subseteq> set_option user"
    by simp_all
  then show ?case
    by (cases ev) (auto simp: saves_def session_users_def retry_calls_def)
qed

lemma finish_event_reads:
  "list_all finish_event evs \<Longrightarrow> retry_calls evs = [] \<and> session_users evs = []"
proof (induction evs)
  case Nil
  then show ?case by simp
next
  case (Cons ev evs)
  then have "finish_event ev" and ih: "retry_calls evs = [] \<and> session_users evs = []"
    by simp_all
  then show ?case
    by (cases ev) (auto simp: session_users_def retry_calls_def)
qed

lemma loop_events_target:
  "list_all loop_event (trace (snd (process_target env p pf sf raw (fresh s))))"
proof -
  have l: "list_all loop_event (trace (snd (local_file_body env pf sf path (fresh s))))" for path
    by (simp add: local_file_body_def call_def Let_def
        split: sum.splits jsonexportable.splits bool.splits)
  have b: "list_all loop_event (trace (snd (branch_body env p pf sf t (fresh s))))" for t
    using l by (cases t) (simp_all add: call_def Let_def split: sum.splits)
  have "list_all loop_event (trace (snd (target_body env p pf sf raw (fresh s))))"
    using b by (simp add: target_body_def split: sum.splits)
  then show ?thesis
    by (cases "target_body env p pf sf raw (fresh s)")
      (simp add: process_target_def error_catcher_def split: option.splits)
qed

lemma loop_events_profile:
  "list_all loop_event (trace (snd (process_profile env p pf sf t (fresh s))))"
  by (simp add: process_profile_def profile_body_def anonymous_retry_def error_catcher_def call_def
      retry_call_def omits_stories_def split: option.splits exn.splits)

lemma for_each_frame:
  assumes "\<And>x. uniform (body x)"
    and "\<And>x s. list_all P (trace (snd (body x (fresh s))))"
  shows "\<exists>evs. trace (snd (for_each body xs s)) = trace s @ evs \<and> list_all P evs
               \<and> is_logged_in (snd (for_each body xs s)) = is_logged_in s"
proof (induction xs arbitrary: s)
  case Nil
  then show ?case by simp
next
  case (Cons x xs)
  obtain r s' where a: "body x s = (r, s')" by (cases "body x s")
  have t: "trace s' = trace s @ trace (snd (body x (fresh s)))"
    using uniformD(2) [OF assms(1), of x s] a by simp
  have l: "is_logged_in s' = is_logged_in s" using uniformD(3) [OF assms(1), of x s] a by simp
  have q: "list_all P (trace (snd (body x (fresh s))))" using assms(2) by simp
  show ?case
  proof (cases r)
    case None
    obtain evs where e: "trace (snd (for_each body xs s')) = trace s' @ evs" "list_all P evs"
        "is_logged_in (snd (for_each body xs s')) = is_logged_in s'"
      using Cons.IH [of s'] by blast
    show ?thesis using a None t l q e by simp
  next
    case (Some e)
    then show ?thesis using a t l q by simp
  qed
qed

lemma loops_frame:
  "\<exists>evs. trace (snd (loops env p pf sf s)) = trace s @ evs \<and> list_all loop_event evs
         \<and> is_logged_in (snd (loops env p pf sf s)) = is_logged_in s"
proof -
  obtain r s1 where a: "targets_loop env p pf sf (targetlist p) s = (r, s1)"
    by (cases "targets_loop env p pf sf (targetlist p) s")
  obtain e1 where e1: "trace s1 = trace s @ e1" "list_all loop_event e1" "is_logged_in s1 = is_logged_in s"
    using for_each_frame [of "process_target env p pf sf" loop_event "targetlist p" s]
      uniform_process_target loop_events_target a
    by (auto simp: targets_loop_def)
  show ?thesis
  proof (cases r)
    case (Some e)
    then show ?thesis using a e1 by (simp add: loops_def)
  next
    case None
    let ?s2 = "if length (profiles s1) > 1 then emit (Log (downloading_msg (profiles s1))) s1 else s1"
    obtain e2 where e2: "trace ?s2 = trace s @ e2" "list_all loop_event e2" "is_logged_in ?s2 = is_logged_in s"
      using e1 by (cases "length (profiles s1) > 1") simp_all
    obtain e3 where e3: "trace (snd (profiles_loop env p pf sf (profiles s1) ?s2)) = trace ?s2 @ e3"
        "list_all loop_event e3"
        "is_logged_in (snd (profiles_loop env p pf sf (profiles s1) ?s2)) = is_logged_in ?s2"
      using for_each_frame [of "process_profile env p pf sf" loop_event "profiles s1" ?s2]
        uniform_process_profile loop_events_profile
      by (auto simp: profiles_loop_def)
    have "loops env p pf sf s = profiles_loop env p pf sf (profiles s1) ?s2"
      using a None by (simp add: loops_def)
    then show ?thesis using e2 e3 by simp
  qed
qed

lemma make_filter_frame:
  "\<exists>evs. trace (snd (make_filter env fs ty what s)) = trace s @ evs
         \<and> list_all (login_event user) evs
         \<and> is_logged_in (snd (make_filter env fs ty what s)) = is_logged_in s"
  by (simp add: make_filter_def split: option.splits sum.splits)

lemma login_phase_frame:
  "\<exists>evs. trace (snd (login_phase env p s)) = trace s @ evs
         \<and> list_all (login_event (username p)) evs"
  by (simp add: login_phase_def load_session_def login_needed_def do_login_def Let_def
      split: option.splits exn.splits sum.splits prod.splits)

lemma run_and_finish_frame:
  "\<exists>evs tl. trace (snd (run_and_finish env p pf sf s)) = trace s @ evs @ tl
     \<and> list_all loop_event evs \<and> list_all finish_event tl
     \<and> saves tl = (if is_logged_in s \<and> reaches_end (fst (loops env p pf sf (s\<lparr>profiles := []\<rparr>)))
                   then 1 else 0)
     \<and> is_logged_in (snd (run_and_finish env p pf sf s)) = is_logged_in s"
proof -
  let ?s0 = "s\<lparr>profiles := []\<rparr>"
  obtain r s1 where a: "loops env p pf sf ?s0 = (r, s1)" by (cases "loops env p pf sf ?s0")
  obtain evs where e: "trace s1 = trace s @ evs" "list_all loop_event evs" "is_logged_in s1 = is_logged_in s"
    using loops_frame [of env p pf sf ?s0] a by auto
  have "\<exists>tl. trace (snd (run_and_finish env p pf sf s)) = trace s1 @ tl
     \<and> list_all finish_event tl
     \<and> saves tl = (if is_logged_in s \<and> reaches_end r then 1 else 0)
     \<and> is_logged_in (snd (run_and_finish env p pf sf s)) = is_logged_in s"
    using a e(3)
    by (simp add: run_and_finish_def save_session_def confusion_hint_def call_def saves_def
        reaches_end_def split: option.splits exn.splits)
  then obtain tl where t: "trace (snd (run_and_finish env p pf sf s)) = trace s1 @ tl"
      "list_all finish_event tl"
      "saves tl = (if is_logged_in s \<and> reaches_end r then 1 else 0)"
      "is_logged_in (snd (run_and_finish env p pf sf s)) = is_logged_in s"
    by blast
  have "trace (snd (run_and_finish env p pf sf s)) = trace s @ evs @ tl"
    using t(1) e(1) by simp
  then show ?thesis using e(2) t(2,3,4) a by (intro exI [of _ evs] exI [of _ tl]) simp
qed

lemma main_inner_frame:
  "\<exists>e1 e2 e3. trace (snd (main_inner env p s)) = trace s @ e1 @ e2 @ e3
     \<and> list_all (login_event (username p)) e1 \<and> list_all loop_event e2
     \<and> list_all finish_event e3"
proof -
  let ?u = "username p"
  obtain r1 s1 where a1: "make_filter env (post_filter_str p) (Post_type env) ''posts'' s = (r1, s1)"
    by (cases "make_filter env (post_filter_str p) (Post_type env) ''posts'' s")
  obtain x1 where x1: "trace s1 = trace s @ x1" "list_all (login_event ?u) x1"
    using make_filter_frame [of env "post_filter_str p" "Post_type env" "''posts''" s ?u] a1 by auto
  obtain r2 s2 where a2: "make_filter env (storyitem_filter_str p) (StoryItem_type env) ''storyitems'' s1 = (r2, s2)"
    by (cases "make_filter env (storyitem_filter_str p) (StoryItem_type env) ''storyitems'' s1")
  obtain x2 where x2: "trace s2 = trace s1 @ x2" "list_all (login_event ?u) x2"
    using make_filter_frame [of env "storyitem_filter_str p" "StoryItem_type env" "''storyitems''" s1 ?u] a2
    by auto
  obtain r3 s3 where a3: "login_phase env p s2 = (r3, s3)" by (cases "login_phase env p s2")
  obtain x3 where x3: "trace s3 = trace s2 @ x3" "list_all (login_event ?u) x3"
    using login_phase_frame [of env p s2] a3 by auto
  have pre: "trace s1 = trace s @ x1 @ [] @ []" "trace s2 = trace s @ (x1 @ x2) @ [] @ []"
    "trace s3 = trace s @ (x1 @ x2 @ x3) @ [] @ []"
    using x1 x2 x3 by simp_all
  show ?thesis
  proof (cases r1)
    case (Inl e)
    then have "snd (main_inner env p s) = s1" using a1 by (simp add: main_inner_def)
    then show ?thesis using pre(1) x1(2)
      by (intro exI [of _ x1] exI [of _ "[]"]) simp
  next
    case (Inr post_filter)
    note f1 = this
    show ?thesis
    proof (cases r2)
      case (Inl e)
      then have "snd (main_inner env p s) = s2" using a1 a2 f1 by (simp add: main_inner_def)
      moreover have "list_all (login_event ?u) (x1 @ x2)" using x1 x2 by simp
      ultimately show ?thesis using pre(2)
        by (intro exI [of _ "x1 @ x2"] exI [of _ "[]"]) simp
    next
      case (Inr storyitem_filter)
      note f2 = this
      have l3: "list_all (login_event ?u) (x1 @ x2 @ x3)" using x1 x2 x3 by simp
      show ?thesis
      proof (cases r3)
        case (Some e)
        then have "snd (main_inner env p s) = s3" using a1 a2 a3 f1 f2 by (simp add: main_inner_def)
        then show ?thesis using pre(3) l3
          by (intro exI [of _ "x1 @ x2 @ x3"] exI [of _ "[]"]) simp
      next
        case None
        then have m: "main_inner env p s = run_and_finish env p post_filter storyitem_filter s3"
          using a1 a2 a3 f1 f2 by (simp add: main_inner_def)
        obtain evs tl where
          e: "trace (snd (run_and_finish env p post_filter storyitem_filter s3)) = trace s3 @ evs @ tl"
             "list_all loop_event evs" "list_all finish_event tl"
          using run_and_finish_frame [of env p post_filter storyitem_filter s3] by blast
        have "trace (snd (main_inner env p s)) = trace s @ (x1 @ x2 @ x3) @ evs @ tl"
          using m e(1) pre(3) by simp
        then show ?thesis using l3 e(2,3)
          by (intro exI [of _ "x1 @ x2 @ x3"] exI [of _ evs] exI [of _ tl]) simp
      qed
    qed
  qed
qed

lemma run_and_finish_saves:
  "saves (trace (snd (run_and_finish env p pf sf s)))
     = saves (trace s)
       + (if is_logged_in s \<and> reaches_end (fst (loops env p pf sf (s\<lparr>profiles := []\<rparr>))) then 1 else 0)"
proof -
  obtain evs tl where
    e: "trace (snd (run_and_finish env p pf sf s)) = trace s @ evs @ tl"
       "list_all loop_event evs"
       "saves tl = (if is_logged_in s \<and> reaches_end (fst (loops env p pf sf (s\<lparr>profiles := []\<rparr>)))
                    then 1 else 0)"
    using run_and_finish_frame [of env p pf sf s] by blast
  have "saves evs = 0" using loop_event_reads [OF e(2)] by simp
  then show ?thesis using e(1,3) by simp
qed

lemma run_and_finish_None:
  "fst (run_and_finish env p pf sf s) = None \<Longrightarrow>
     reaches_end (fst (loops env p pf sf (s\<lparr>profiles := []\<rparr>)))"
  by (cases "loops env p pf sf (s\<lparr>profiles := []\<rparr>)")
    (auto simp: run_and_finish_def reaches_end_def split: option.splits exn.splits)

lemma run_and_finish_logged_in:
  "is_logged_in (snd (run_and_finish env p pf sf s)) = is_logged_in s"
  using run_and_finish_frame [of env p pf sf s] by blast

lemma main_inner_cases:
  "(\<exists>e s1 e1. main_inner env p s = (Some e, s1) \<and> trace s1 = trace s @ e1
       \<and> list_all (login_event (username p)) e1)
   \<or> (\<exists>pf sf s3 e1. main_inner env p s = run_and_finish env p pf sf s3 \<and> trace s3 = trace s @ e1
       \<and> list_all (login_event (username p)) e1)"
proof -
  let ?u = "username p"
  obtain r1 s1 where a1: "make_filter env (post_filter_str p) (Post_type env) ''posts'' s = (r1, s1)"
    by (cases "make_filter env (post_filter_str p) (Post_type env) ''posts'' s")
  obtain x1 where x1: "trace s1 = trace s @ x1" "list_all (login_event ?u) x1"
    using make_filter_frame [of env "post_filter_str p" "Post_type env" "''posts''" s ?u] a1 by auto
  obtain r2 s2 where a2: "make_filter env (storyitem_filter_str p) (StoryItem_type env) ''storyitems'' s1 = (r2, s2)"
    by (cases "make_filter env (storyitem_filter_str p) (StoryItem_type env) ''storyitems'' s1")
  obtain x2 where x2: "trace s2 = trace s1 @ x2" "list_all (login_event ?u) x2"
    using make_filter_frame [of env "storyitem_filter_str p" "StoryItem_type env" "''storyitems''" s1 ?u] a2
    by auto
  obtain r3 s3 where a3: "login_phase env p s2 = (r3, s3)" by (cases "login_phase env p s2")
  obtain x3 where x3: "trace s3 = trace s2 @ x3" "list_all (login_event ?u) x3"
    using login_phase_frame [of env p s2] a3 by auto
  have t2: "trace s2 = trace s @ (x1 @ x2)" and l2: "list_all (login_event ?u) (x1 @ x2)"
    using x1 x2 by simp_all
  have t3: "trace s3 = trace s @ (x1 @ x2 @ x3)" and l3: "list_all (login_event ?u) (x1 @ x2 @ x3)"
    using x1 x2 x3 by simp_all
  show ?thesis
  proof (cases r1)
    case (Inl e)
    then have "main_inner env p s = (Some e, s1)" using a1 by (simp add: main_inner_def)
    then show ?thesis using x1 by blast
  next
    case (Inr post_filter)
    note f1 = this
    show ?thesis
    proof (cases r2)
      case (Inl e)
      then have "main_inner env p s = (Some e, s2)" using a1 a2 f1 by (simp add: main_inner_def)
      then show ?thesis using t2 l2 by blast
    next
      case (Inr storyitem_filter)
      note f2 = this
      show ?thesis
      proof (cases r3)
        case (Some e)
        then have "main_inner env p s = (Some e, s3)" using a1 a2 a3 f1 f2 by (simp add: main_inner_def)
        then show ?thesis using t3 l3 by blast
      next
        case None
        then have "main_inner env p s = run_and_finish env p post_filter storyitem_filter s3"
          using a1 a2 a3 f1 f2 by (simp add: main_inner_def)
        then show ?thesis using t3 l3 by blast
      qed
    qed
  qed
qed

lemma interrupted_run:
  "main_inner interrupted as_alice initial
     = (None,
        \<lparr>is_logged_in = True, profiles = [''ann'', ''bob'', ''carol''],
         trace = [LoadSessionFromFile ''alice'' None, TestLogin, Log ''Logged in as alice.'',
                  Log (downloading_msg [''ann'', ''bob'', ''carol'']),
                  DownloadProfile TheLoader (first_call as_alice None None ''ann''),
                  DownloadProfile TheLoader (first_call as_alice None None ''bob''),
                  Stderr ([CHR 0x0A] @ ''Interrupted by user.''),
                  SaveSessionToFile None]\<rparr>)"
  by (simp add: unfold_run env_simps params_simps initial_def emit_def)

section \<open>Saving the session\<close>

text \<open>
  Claim C4. After the loops \<^verbatim>\<open>save_session_to_file\<close> is called once when the session is logged
  in and the loops ended normally or by the interrupt, and is not called otherwise. Hence in
  every run of \<^verbatim>\<open>_main\<close> that returns, interrupted or not, the session is saved exactly once
  when it is logged in; and in no run, however it ends, is it saved when the session is not
  logged in.
\<close>

theorem session_saved_once:
  "saves (trace (snd (run_and_finish env p pf sf s)))
     = saves (trace s)
       + (if is_logged_in s \<and> reaches_end (fst (loops env p pf sf (s\<lparr>profiles := []\<rparr>))) then 1 else 0)
   \<and> (fst (main_inner env p s) = None \<longrightarrow>
        saves (trace (snd (main_inner env p s)))
          = saves (trace s) + (if is_logged_in (snd (main_inner env p s)) then 1 else 0))
   \<and> (\<not> is_logged_in (snd (main_inner env p s)) \<longrightarrow>
        saves (trace (snd (main_inner env p s))) = saves (trace s))"
proof -
  consider (early) e s1 e1 where "main_inner env p s = (Some e, s1)" "trace s1 = trace s @ e1"
      "list_all (login_event (username p)) e1"
    | (late) pf' sf' s3 e1 where "main_inner env p s = run_and_finish env p pf' sf' s3"
      "trace s3 = trace s @ e1" "list_all (login_event (username p)) e1"
    using main_inner_cases [of env p s] by blast
  then have "(fst (main_inner env p s) = None \<longrightarrow>
        saves (trace (snd (main_inner env p s)))
          = saves (trace s) + (if is_logged_in (snd (main_inner env p s)) then 1 else 0))
   \<and> (\<not> is_logged_in (snd (main_inner env p s)) \<longrightarrow>
        saves (trace (snd (main_inner env p s))) = saves (trace s))"
  proof cases
    case early
    have "saves e1 = 0" using login_event_reads [OF early(3)] by simp
    then show ?thesis using early(1,2) by simp
  next
    case late
    have z: "saves e1 = 0" using login_event_reads [OF late(3)] by simp
    have l: "is_logged_in (snd (main_inner env p s)) = is_logged_in s3"
      using late(1) run_and_finish_logged_in by simp
    have c: "saves (trace (snd (main_inner env p s)))
       = saves (trace s)
         + (if is_logged_in s3 \<and> reaches_end (fst (loops env p pf' sf' (s3\<lparr>profiles := []\<rparr>))) then 1 else 0)"
      using late(1,2) z run_and_finish_saves [of env p pf' sf' s3] by simp
    have n: "fst (main_inner env p s) = None \<Longrightarrow> reaches_end (fst (loops env p pf' sf' (s3\<lparr>profiles := []\<rparr>)))"
      using late(1) run_and_finish_None by simp
    show ?thesis using l c n by auto
  qed
  then show ?thesis using run_and_finish_saves by blast
qed

theorem session_saved_once_witness:
  "fst (main_inner interrupted as_alice initial) = None
   \<and> is_logged_in (snd (main_inner interrupted as_alice initial))
   \<and> saves (trace (snd (main_inner interrupted as_alice initial))) = 1
   \<and> \<not> is_logged_in (snd (main_inner calm defaults initial))
   \<and> saves (trace (snd (main_inner calm defaults initial))) = 0"
proof -
  have a: "fst (main_inner interrupted as_alice initial) = None"
    and b: "is_logged_in (snd (main_inner interrupted as_alice initial))"
    by (simp_all add: interrupted_run)
  have c: "\<not> is_logged_in (snd (main_inner calm defaults initial))"
    by (simp add: unfold_run env_simps params_simps initial_def emit_def)
  show ?thesis
    using a b c session_saved_once [of interrupted as_alice None None initial]
      session_saved_once [of calm defaults None None initial]
    by simp
qed

section \<open>A run without targets\<close>

lemma loops_no_targets:
  "targetlist p = [] \<Longrightarrow> loops env p pf sf (s\<lparr>profiles := []\<rparr>) = (None, s\<lparr>profiles := []\<rparr>)"
  by (simp add: loops_def targets_loop_def profiles_loop_def)

lemma run_and_finish_last:
  assumes "targetlist p = []" and "fst (run_and_finish env p pf sf s) = None"
  shows "last (trace (snd (run_and_finish env p pf sf s)))
         = Log (if is_logged_in s then no_targets_msg else ''usage:'' @ usage_string (argv0 env))"
  using assms
  by (auto simp: run_and_finish_def loops_no_targets save_session_def confusion_hint_def call_def
      split: option.splits if_splits)

text \<open>
  Claim C7, as the code has it. With an empty target list the loops do nothing. When the
  session is not logged in, the usage text is logged, which has several lines; when it is
  logged in, the session is saved and then the one-line notice that no targets were
  specified is logged. In a run of \<^verbatim>\<open>_main\<close> that returns, that line is the last event.
\<close>

theorem no_targets_hint:
  assumes "targetlist p = []"
  shows "run_and_finish env p pf sf s =
           (if is_logged_in s then
              (case save_session_to_file env (sessionfile p) of
                 None \<Rightarrow>
                   (None, s\<lparr>profiles := [],
                             trace := trace s @ [SaveSessionToFile (sessionfile p), Log no_targets_msg]\<rparr>)
               | Some e \<Rightarrow>
                   (Some e, s\<lparr>profiles := [], trace := trace s @ [SaveSessionToFile (sessionfile p)]\<rparr>))
            else (None, s\<lparr>profiles := [],
                           trace := trace s @ [Log (''usage:'' @ usage_string (argv0 env))]\<rparr>))
         \<and> (fst (main_inner env p s) = None \<longrightarrow>
              last (trace (snd (main_inner env p s)))
                = Log (if is_logged_in (snd (main_inner env p s)) then no_targets_msg
                       else ''usage:'' @ usage_string (argv0 env)))
         \<and> CHR 0x0A \<notin> set no_targets_msg
         \<and> CHR 0x0A \<in> set (usage_string (argv0 env))"
proof -
  have 1: "run_and_finish env p pf sf s =
           (if is_logged_in s then
              (case save_session_to_file env (sessionfile p) of
                 None \<Rightarrow>
                   (None, s\<lparr>profiles := [],
                             trace := trace s @ [SaveSessionToFile (sessionfile p), Log no_targets_msg]\<rparr>)
               | Some e \<Rightarrow>
                   (Some e, s\<lparr>profiles := [], trace := trace s @ [SaveSessionToFile (sessionfile p)]\<rparr>))
            else (None, s\<lparr>profiles := [],
                           trace := trace s @ [Log (''usage:'' @ usage_string (argv0 env))]\<rparr>))"
    using assms
    by (simp add: run_and_finish_def loops_no_targets save_session_def confusion_hint_def call_def
        emit_def split: option.splits)
  have 2: "fst (main_inner env p s) = None \<longrightarrow>
              last (trace (snd (main_inner env p s)))
                = Log (if is_logged_in (snd (main_inner env p s)) then no_targets_msg
                       else ''usage:'' @ usage_string (argv0 env))"
  proof
    assume n: "fst (main_inner env p s) = None"
    then obtain pf' sf' s3 where m: "main_inner env p s = run_and_finish env p pf' sf' s3"
      using main_inner_cases [of env p s] by auto
    have "is_logged_in (snd (main_inner env p s)) = is_logged_in s3"
      using m run_and_finish_logged_in by simp
    then show "last (trace (snd (main_inner env p s)))
                = Log (if is_logged_in (snd (main_inner env p s)) then no_targets_msg
                       else ''usage:'' @ usage_string (argv0 env))"
      using run_and_finish_last [OF assms, of env pf' sf' s3] n m by simp
  qed
  have 3: "CHR 0x0A \<notin> set no_targets_msg" by (simp add: no_targets_msg_def)
  have 4: "CHR 0x0A \<in> set (usage_string (argv0 env))" by (simp add: usage_string_def Let_def)
  show ?thesis using 1 2 3 4 by blast
qed

theorem no_targets_hint_witness:
  "targetlist defaults = []
   \<and> run_and_finish calm defaults None None logged_in
       = (None, logged_in\<lparr>trace := [SaveSessionToFile None, Log no_targets_msg]\<rparr>)
   \<and> run_and_finish calm defaults None None initial
       = (None, initial\<lparr>trace := [Log (''usage:'' @ usage_string ''instaloader'')]\<rparr>)"
proof -
  have h: "targetlist defaults = []" by (simp add: params_simps)
  show ?thesis
    using h no_targets_hint [OF h, of calm None None logged_in]
      no_targets_hint [OF h, of calm None None initial]
    by (simp add: env_simps params_simps logged_in_def initial_def)
qed

text \<open>
  Claim C7 as stated fails: a run with no target and no login logs the usage text, so
  output is produced when the session is not logged in.
\<close>

theorem usage_logged_counterexample:
  "arg_profile bare = []
   \<and> fst (main calm bare) = None
   \<and> \<not> is_logged_in (snd (main calm bare))
   \<and> trace (snd (main calm bare)) = [Log (''usage:'' @ usage_string ''instaloader''), CloseLoader]"
  by (simp add: main_def bare_def unfold_run env_simps initial_def emit_def)

section \<open>The arguments of the retry\<close>

lemma blocked_run:
  "main_inner blocked with_stories logged_in
     = (None,
        \<lparr>is_logged_in = True, profiles = [''carol''],
         trace = [Log (''Only download storyitems with property '' @ [CHR 0x22] @ ''is_video''
                       @ [CHR 0x22] @ ''.''),
                  DownloadProfile TheLoader
                    (first_call with_stories None
                       (Some (Node ''Expression'' [Attribute (Name ''item'' Load) ''is_video'' Load]))
                       ''carol''),
                  Log ''Profile carol does not exist.'', Log trying_again_msg, AnonymousCopy,
                  DownloadProfile AnonymousLoader (retry_call with_stories None ''carol''),
                  SaveSessionToFile None]\<rparr>)"
  by (simp add: unfold_run blocked_simps params_simps logged_in_def emit_def
      filterstr_to_filterfunc_def sample_parse_def sample_StoryItem_def hasattr_def)

text \<open>
  Claim C9. In every run of \<^verbatim>\<open>_main\<close>, every call of \<^verbatim>\<open>download_profile\<close> on the anonymous
  copy passes neither \<^verbatim>\<open>download_stories\<close> nor \<^verbatim>\<open>download_stories_only\<close> nor
  \<^verbatim>\<open>storyitem_filter\<close>, whatever the parameters of the run are.
\<close>

theorem retry_omits_stories:
  "\<exists>new. retry_calls (trace (snd (main_inner env p s))) = retry_calls (trace s) @ new
         \<and> list_all (\<lambda>c. pc_download_stories c = Omitted \<and> pc_download_stories_only c = Omitted
                           \<and> pc_storyitem_filter c = Omitted) new"
proof -
  obtain e1 e2 e3 where
    e: "trace (snd (main_inner env p s)) = trace s @ e1 @ e2 @ e3"
       "list_all (login_event (username p)) e1" "list_all loop_event e2" "list_all finish_event e3"
    using main_inner_frame [of env p s] by blast
  have "retry_calls e1 = []" using login_event_reads [OF e(2)] by simp
  moreover have "retry_calls e3 = []" using finish_event_reads [OF e(4)] by simp
  moreover have "list_all omits_stories (retry_calls e2)" using loop_event_reads [OF e(3)] by simp
  moreover have "omits_stories = (\<lambda>c. pc_download_stories c = Omitted \<and> pc_download_stories_only c = Omitted
                           \<and> pc_storyitem_filter c = Omitted)"
    by (rule ext) (simp add: omits_stories_def)
  ultimately have "retry_calls (trace (snd (main_inner env p s))) = retry_calls (trace s) @ retry_calls e2
      \<and> list_all (\<lambda>c. pc_download_stories c = Omitted \<and> pc_download_stories_only c = Omitted
                           \<and> pc_storyitem_filter c = Omitted) (retry_calls e2)"
    using e(1) by simp
  then show ?thesis by blast
qed

theorem retry_omits_stories_witness:
  "pc_download_stories (first_call with_stories None
       (Some (Node ''Expression'' [Attribute (Name ''item'' Load) ''is_video'' Load])) ''carol'')
     = Passed True
   \<and> pc_storyitem_filter (first_call with_stories None
       (Some (Node ''Expression'' [Attribute (Name ''item'' Load) ''is_video'' Load])) ''carol'')
     = Passed (Some (Node ''Expression'' [Attribute (Name ''item'' Load) ''is_video'' Load]))
   \<and> retry_calls (trace (snd (main_inner blocked with_stories logged_in)))
     = [retry_call with_stories None ''carol'']
   \<and> list_all (\<lambda>c. pc_download_stories c = Omitted \<and> pc_download_stories_only c = Omitted
                     \<and> pc_storyitem_filter c = Omitted)
        (retry_calls (trace (snd (main_inner blocked with_stories logged_in))))"
proof -
  have r: "retry_calls (trace (snd (main_inner blocked with_stories logged_in)))
     = [retry_call with_stories None ''carol'']"
    by (simp add: blocked_run retry_calls_def)
  obtain new where
    n: "retry_calls (trace (snd (main_inner blocked with_stories logged_in)))
          = retry_calls (trace logged_in) @ new"
       "list_all (\<lambda>c. pc_download_stories c = Omitted \<and> pc_download_stories_only c = Omitted
                     \<and> pc_storyitem_filter c = Omitted) new"
    using retry_omits_stories [of blocked with_stories logged_in] by blast
  have "new = retry_calls (trace (snd (main_inner blocked with_stories logged_in)))"
    using n(1) by simp
  then show ?thesis using r n(2) by (simp add: first_call_def params_simps)
qed

section \<open>The login name\<close>

lemma main_inner_session_users:
  assumes "main_inner env p s = (r, s')" and "session_users (trace s) = []"
  shows "set (session_users (trace s')) \<subseteq> set_option (username p)"
proof -
  obtain e1 e2 e3 where
    e: "trace (snd (main_inner env p s)) = trace s @ e1 @ e2 @ e3"
       "list_all (login_event (username p)) e1" "list_all loop_event e2" "list_all finish_event e3"
    using main_inner_frame [of env p s] by blast
  have "session_users e2 = []" using loop_event_reads [OF e(3)] by simp
  moreover have "session_users e3 = []" using finish_event_reads [OF e(4)] by simp
  moreover have "set (session_users e1) \<subseteq> set_option (username p)"
    using login_event_reads [OF e(2)] by simp
  ultimately show ?thesis using e(1) assms by simp
qed

lemma session_users_simps [simp]:
  "session_users [Stderr m] = []" "session_users [CloseLoader] = []"
  by (simp_all add: session_users_def)

lemma lower_simps:
  "str_lower calm = ascii_lower" "str_lower blocked = ascii_lower"
  "ascii_lower ''Alice'' = ''alice''" "ascii_lower ''ALICE'' = ''alice''"
  by (simp_all add: calm_def blocked_def ascii_lower_def ascii_lower_char_def)

lemma calm_login_simps:
  "load_session_from_file calm = (\<lambda>user file. Some (FileNotFoundError ''No such file or directory''))"
  "login calm = (\<lambda>user passwd. None)"
  by (simp_all add: calm_def)

lemma mixed_case_run:
  "main calm (bare\<lparr>arg_login := Some ''Alice'', arg_password := Some ''secret''\<rparr>)
     = (None,
        \<lparr>is_logged_in = True, profiles = [],
         trace = [LoadSessionFromFile ''alice'' None,
                  Log ''Session file does not exist yet - Logging in.'',
                  Login ''alice'' ''secret'', Log ''Logged in as alice.'',
                  SaveSessionToFile None, Log no_targets_msg, CloseLoader]\<rparr>)"
  by (simp add: main_def bare_def unfold_run env_simps calm_login_simps lower_simps initial_def emit_def)

text \<open>
  Claim C10. In a run of \<^verbatim>\<open>main\<close> with a login name, every loading of a session and every
  login is for the lowercased name; and two command lines whose login names have the same
  lowercased form give the same run, the comparison with \<^verbatim>\<open>test_login()\<close> included.
\<close>

theorem login_name_lowercased:
  "(arg_login a = Some name \<longrightarrow> set (session_users (trace (snd (main env a)))) \<subseteq> {str_lower env name})
   \<and> (str_lower env n1 = str_lower env n2 \<longrightarrow>
        main env (a\<lparr>arg_login := Some n1\<rparr>) = main env (a\<lparr>arg_login := Some n2\<rparr>))"
proof
  show "arg_login a = Some name \<longrightarrow> set (session_users (trace (snd (main env a)))) \<subseteq> {str_lower env name}"
  proof
    assume l: "arg_login a = Some name"
    show "set (session_users (trace (snd (main env a)))) \<subseteq> {str_lower env name}"
      using l
      by (auto simp: main_def Let_def split: option.splits sum.splits prod.splits
          dest!: main_inner_session_users)
  qed
  show "str_lower env n1 = str_lower env n2 \<longrightarrow>
        main env (a\<lparr>arg_login := Some n1\<rparr>) = main env (a\<lparr>arg_login := Some n2\<rparr>)"
  proof
    assume h: "str_lower env n1 = str_lower env n2"
    show "main env (a\<lparr>arg_login := Some n1\<rparr>) = main env (a\<lparr>arg_login := Some n2\<rparr>)"
      by (simp add: main_def Let_def h cong: sum.case_cong option.case_cong prod.case_cong if_cong)
  qed
qed

theorem login_name_lowercased_witness:
  "arg_login (bare\<lparr>arg_login := Some ''Alice'', arg_password := Some ''secret''\<rparr>) = Some ''Alice''
   \<and> str_lower blocked ''Alice'' = str_lower blocked ''ALICE''
   \<and> session_users (trace (snd (main calm (bare\<lparr>arg_login := Some ''Alice'', arg_password := Some ''secret''\<rparr>))))
       = [''alice'', ''alice'']
   \<and> set (session_users (trace (snd (main calm (bare\<lparr>arg_login := Some ''Alice'', arg_password := Some ''secret''\<rparr>)))))
       \<subseteq> {''alice''}
   \<and> main blocked (bare\<lparr>arg_login := Some ''Alice''\<rparr>) = main blocked (bare\<lparr>arg_login := Some ''ALICE''\<rparr>)"
proof -
  have h: "str_lower blocked ''Alice'' = str_lower blocked ''ALICE''" by (simp add: lower_simps)
  have u: "session_users (trace (snd (main calm (bare\<lparr>arg_login := Some ''Alice'', arg_password := Some ''secret''\<rparr>))))
       = [''alice'', ''alice'']"
    by (simp add: mixed_case_run session_users_def)
  show ?thesis
    using h u
      login_name_lowercased [of "bare\<lparr>arg_login := Some ''Alice'', arg_password := Some ''secret''\<rparr>"
        "''Alice''" calm "''Alice''" "''ALICE''"]
      login_name_lowercased [of bare "''Alice''" blocked "''Alice''" "''ALICE''"]
    by (simp add: lower_simps)
qed

section \<open>A local file that is not supported\<close>

text \<open>
  Claim C6, as the code has it. The rejection of a local file that holds a \<^verbatim>\<open>Profile\<close>, or an
  object of another unsupported class, is raised inside the boundary of that target: it is
  recorded as an error record for the file, and the loop goes on with the next target.
\<close>

theorem unsupported_descriptor_recorded:
  assumes "is_descriptor_file (isfile env) raw"
  shows "(load_structure_from_file env raw = Inr (Profile uname) \<longrightarrow>
            targets_loop env p pf sf (raw # rest) s
              = targets_loop env p pf sf rest
                  (emit (ErrorRecord (Some raw) (InvalidArgumentException (profile_json_msg uname)))
                     (emit (LoadStructureFromFile raw) s)))
         \<and> (load_structure_from_file env raw = Inr (OtherStructure cls) \<longrightarrow>
            targets_loop env p pf sf (raw # rest) s
              = targets_loop env p pf sf rest
                  (emit (ErrorRecord (Some raw) (InvalidArgumentException (not_supported_msg cls)))
                     (emit (LoadStructureFromFile raw) s)))"
  using assms
  by (simp add: targets_loop_def process_target_def label_def target_body_def classify_def
      local_file_body_def error_catcher_def)

theorem unsupported_descriptor_recorded_witness:
  "is_descriptor_file (isfile profile_json) ''alice.json''
   \<and> load_structure_from_file profile_json ''alice.json'' = Inr (Profile ''alice'')
   \<and> targets_loop profile_json defaults None None [''alice.json'', ''#cats''] initial
       = (None,
          \<lparr>is_logged_in = False, profiles = [],
           trace = [LoadStructureFromFile ''alice.json'',
                    ErrorRecord (Some ''alice.json'') (InvalidArgumentException (profile_json_msg ''alice'')),
                    DownloadHashtag ''cats'' None False None]\<rparr>)"
proof -
  have h: "is_descriptor_file (isfile profile_json) ''alice.json''"
    by (simp add: is_descriptor_file_def endswith_def env_simps)
  show ?thesis
    using h unsupported_descriptor_recorded [OF h, of "''alice''" defaults None None "[''#cats'']" initial]
    by (simp add: env_simps defaults_simps targets_loop_def process_target_def label_def
        target_body_def classify_def is_descriptor_file_def endswith_def classify_sigil_def
        rstrip_def call_def error_catcher_def initial_def emit_def)
qed

text \<open>
  Claim C6 as stated fails: the run over a \<^verbatim>\<open>Profile\<close> file and a hashtag records the
  rejection, downloads the hashtag and returns, so the exit status is 0.
\<close>

theorem profile_json_counterexample:
  "fst (main profile_json json_then_hashtag) = None
   \<and> exit_status (fst (main profile_json json_then_hashtag)) = 0
   \<and> trace (snd (main profile_json json_then_hashtag))
       = [LoadStructureFromFile ''alice.json'',
          ErrorRecord (Some ''alice.json'') (InvalidArgumentException (profile_json_msg ''alice'')),
          DownloadHashtag ''cats'' None False None,
          CloseLoader]"
  by (simp add: main_def json_then_hashtag_def bare_def exit_status_def unfold_run env_simps
      local_file_body_def initial_def emit_def)

end
